theory Spec2Isabelle
  imports Main "HOL-Library.AList" "HOL-Library.List_Lexorder" "HOL-Library.Char_ord"
begin

section \<open>JavaScript values used by the unit tracker\<close>

text \<open>
  The scripts read three identifying fields of a unit record (\<open>unit_key\<close>, \<open>unit_id\<close>,
  \<open>unit_number\<close>). Every writer of \<open>units_json\<close> in the repository stores a string or
  \<open>null\<close> there, so a field is a \<open>string option\<close>: \<open>None\<close> is \<open>null\<close>/\<open>undefined\<close> (or a
  \<open>null\<close> array element read through \<open>u?.\<close>), \<open>Some s\<close> is the string \<open>s\<close>. Strings are lists
  of 8-bit characters; of the code units that \<open>String.prototype.trim\<close> removes, those below
  256 are modelled.
\<close>

definition isWhitespace :: "char \<Rightarrow> bool" where
  "isWhitespace c =
     (c = CHR 0x09 \<or> c = CHR 0x0A \<or> c = CHR 0x0B \<or> c = CHR 0x0C \<or> c = CHR 0x0D \<or>
      c = CHR 0x20 \<or> c = CHR 0xA0)"

definition trim :: "string \<Rightarrow> string" where
  "trim s = rev (dropWhile isWhitespace (rev (dropWhile isWhitespace s)))"

definition startsWith :: "string \<Rightarrow> string \<Rightarrow> bool" where
  "startsWith s p = (take (length p) s = p)"

text \<open>\<open>s.slice(5)\<close> on a string.\<close>

definition slice5 :: "string \<Rightarrow> string" where
  "slice5 s = drop 5 s"

text \<open>Truthiness of a string-or-null value, and the operator \<open>a || b\<close> on such values.\<close>

definition truthy :: "string option \<Rightarrow> bool" where
  "truthy v = (case v of None \<Rightarrow> False | Some s \<Rightarrow> s \<noteq> [])"

definition orElse :: "string option \<Rightarrow> string option \<Rightarrow> string option" where
  "orElse a b = (if truthy a then a else b)"

text \<open>
  A unit record as stored in \<open>units_json\<close>. \<open>page_url\<close>, \<open>price_text\<close> and \<open>raw_text\<close> are the
  fields of \<open>meta\<close>; the numeric \<open>price\<close> (a float parsed from \<open>price_text\<close>) and the constant
  \<open>floor_plan_id\<close> are read by none of the functions below and are left out.
\<close>

record unit_rec =
  unit_key :: "string option"
  unit_id :: "string option"
  unit_number :: "string option"
  available_on :: "string option"
  page_url :: "string option"
  price_text :: "string option"
  raw_text :: "string option"

section \<open>diff\_snapshots\_to\_unit\_events.js: key normalizer and unit map\<close>

definition normalizeUnitKey :: "unit_rec \<Rightarrow> string option" where
  "normalizeUnitKey u =
     (let unitId = (case unit_id u of Some i \<Rightarrow> i | None \<Rightarrow> []);
          unitNumber = (case unit_number u of Some n \<Rightarrow> trim n | None \<Rightarrow> [])
      in if startsWith unitId ''unit:'' then Some unitId
         else if unitNumber \<noteq> [] then Some (''unit:'' @ unitNumber)
         else if unitId \<noteq> [] then Some (''id:'' @ unitId)
         else None)"

definition unitNumberFromKey :: "string option \<Rightarrow> string option" where
  "unitNumberFromKey unitKey =
     (if \<not> truthy unitKey then None
      else case unitKey of
             None \<Rightarrow> None
           | Some s \<Rightarrow> if startsWith s ''unit:'' then orElse (Some (slice5 s)) None else None)"

text \<open>The value stored under a key by \<open>buildMap\<close>: \<open>{ unit_number, raw }\<close>.\<close>

record entry =
  entry_unit_number :: "string option"
  raw :: unit_rec

text \<open>
  A JavaScript \<open>Map\<close> keeps its keys in insertion order; \<open>m.set(k, v)\<close> overwrites the value of
  a key that is present, in place, and appends a new key otherwise. That is \<open>AList.update\<close>
  on an association list.
\<close>

type_synonym unit_map = "(string \<times> entry) list"

definition Map_set :: "string \<Rightarrow> 'v \<Rightarrow> (string \<times> 'v) list \<Rightarrow> (string \<times> 'v) list" where
  "Map_set k v m = AList.update k v m"

definition Map_get :: "(string \<times> 'v) list \<Rightarrow> string \<Rightarrow> 'v option" where
  "Map_get m k = map_of m k"

definition Map_keys :: "(string \<times> 'v) list \<Rightarrow> string list" where
  "Map_keys m = map fst m"

fun buildMap_loop :: "unit_map \<Rightarrow> unit_rec list \<Rightarrow> unit_map" where
  "buildMap_loop m [] = m"
| "buildMap_loop m (u # us) =
     (let key = normalizeUnitKey u in
      if \<not> truthy key then buildMap_loop m us
      else
        (let unit_number' =
               orElse (orElse (case unit_number u of None \<Rightarrow> None | Some n \<Rightarrow> Some (trim n))
                              (unitNumberFromKey key)) None
         in buildMap_loop
              (Map_set (case key of Some k \<Rightarrow> k | None \<Rightarrow> [])
                       \<lparr>entry_unit_number = unit_number', raw = u\<rparr> m) us))"

definition buildMap :: "unit_rec list \<Rightarrow> unit_map" where
  "buildMap units = buildMap_loop [] units"

text \<open>
  \<open>new Set(xs)\<close> keeps the first occurrence of every element, in order; iterating the set
  visits them in that order.
\<close>

fun newSet_loop :: "string list \<Rightarrow> string list \<Rightarrow> string list" where
  "newSet_loop seen [] = seen"
| "newSet_loop seen (x # xs) =
     (if x \<in> set seen then newSet_loop seen xs else newSet_loop (seen @ [x]) xs)"

definition newSet :: "string list \<Rightarrow> string list" where
  "newSet xs = newSet_loop [] xs"

record diff =
  appeared :: "string list"
  disappeared :: "string list"

definition diffKeys :: "unit_map \<Rightarrow> unit_map \<Rightarrow> diff" where
  "diffKeys prevMap currMap =
     (let prevKeys = newSet (Map_keys prevMap);
          currKeys = newSet (Map_keys currMap)
      in \<lparr>appeared = filter (\<lambda>k. k \<notin> set prevKeys) currKeys,
          disappeared = filter (\<lambda>k. k \<notin> set currKeys) prevKeys\<rparr>)"

section \<open>push\_prospectportal\_snapshot\_to\_supabase\_v2.js: normalizers\<close>

definition normalizeUnitNumber :: "string option \<Rightarrow> string option" where
  "normalizeUnitNumber x =
     (let n = trim (case x of None \<Rightarrow> [] | Some s \<Rightarrow> s)
      in if n \<noteq> [] then Some n else None)"

definition normalizeUnitKeyFromNumber :: "string option \<Rightarrow> string option" where
  "normalizeUnitKeyFromNumber unitNumber =
     (case normalizeUnitNumber unitNumber of
        None \<Rightarrow> None
      | Some n \<Rightarrow> if startsWith n ''unit:'' then Some n else Some (''unit:'' @ n))"

definition unitNumberFromUnitKey :: "string option \<Rightarrow> string option" where
  "unitNumberFromUnitKey unitKey =
     (if \<not> truthy unitKey then None
      else case unitKey of
             None \<Rightarrow> None
           | Some s \<Rightarrow> if startsWith s ''unit:'' then orElse (Some (slice5 s)) None
                       else orElse (Some s) None)"

definition pp_diffKeys :: "unit_rec list \<Rightarrow> unit_rec list \<Rightarrow> diff" where
  "pp_diffKeys prevUnits currUnits =
     (let prevSet = newSet (map the (filter truthy (map unit_key prevUnits)));
          currSet = newSet (map the (filter truthy (map unit_key currUnits)))
      in \<lparr>appeared = filter (\<lambda>k. k \<notin> set prevSet) currSet,
          disappeared = filter (\<lambda>k. k \<notin> set currSet) prevSet\<rparr>)"

section \<open>run\_rentcafe\_all\_with\_events.js: keys and diff\<close>

definition unitKeyForEvents :: "unit_rec \<Rightarrow> string option" where
  "unitKeyForEvents u =
     orElse (Some (trim (case orElse (orElse (unit_id u) (unit_number u)) (Some []) of
                           None \<Rightarrow> [] | Some s \<Rightarrow> s)))
            None"

definition diffUnitKeys :: "unit_rec list \<Rightarrow> unit_rec list \<Rightarrow> diff" where
  "diffUnitKeys prevUnits currUnits =
     (let prevKeys = newSet (map the (filter truthy (map unitKeyForEvents prevUnits)));
          currKeys = newSet (map the (filter truthy (map unitKeyForEvents currUnits)))
      in \<lparr>appeared = filter (\<lambda>k. k \<notin> set prevKeys) currKeys,
          disappeared = filter (\<lambda>k. k \<notin> set currKeys) prevKeys\<rparr>)"

text \<open>
  The de-duplication loop of \<open>scrapeRentCafeUrls\<close> (the body of \<open>for (const u of units)\<close>);
  the state is the pair of \<open>all\<close> and \<open>seen\<close>, shared by all URLs of a property.
\<close>

fun rc_dedupe :: "unit_rec list \<times> string list \<Rightarrow> unit_rec list \<Rightarrow> unit_rec list \<times> string list" where
  "rc_dedupe (all, seen) [] = (all, seen)"
| "rc_dedupe (all, seen) (u # us) =
     (let k = orElse (unit_id u)
                (Some ((case orElse (page_url u) (Some []) of None \<Rightarrow> [] | Some s \<Rightarrow> s) @ ''|'' @
                       (case orElse (unit_number u) (Some []) of None \<Rightarrow> [] | Some s \<Rightarrow> s)))
      in if \<not> truthy k then rc_dedupe (all, seen) us
         else if the k \<in> set seen then rc_dedupe (all, seen) us
         else rc_dedupe (all @ [u], seen @ [the k]) us)"

section \<open>push\_prospectportal\_snapshot\_to\_supabase\_v2.js: building units\<close>

text \<open>A record returned by the in-page extraction (\<open>page.evaluate\<close>).\<close>

record extracted =
  ex_unit_number :: "string option"
  ex_price_text :: "string option"
  ex_available_on :: "string option"
  ex_raw :: "string option"
  ex_page_url :: "string option"

text \<open>
  The body of \<open>for (const r of extracted)\<close> in \<open>scrapeProspectPortalUnits\<close>; the state is the
  pair of \<open>units\<close> and \<open>seen\<close>.
\<close>

fun pp_collect :: "unit_rec list \<times> string list \<Rightarrow> extracted list \<Rightarrow> unit_rec list \<times> string list" where
  "pp_collect (units, seen) [] = (units, seen)"
| "pp_collect (units, seen) (r # rs) =
     (let unit_number' = normalizeUnitNumber (ex_unit_number r);
          unit_key' = normalizeUnitKeyFromNumber unit_number'
      in if \<not> truthy unit_key' then pp_collect (units, seen) rs
         else if the unit_key' \<in> set seen then pp_collect (units, seen) rs
         else pp_collect
                (units @ [\<lparr>unit_key = unit_key', unit_id = unit_key', unit_number = unit_number',
                            available_on = orElse (ex_available_on r) None,
                            page_url = ex_page_url r,
                            price_text = orElse (ex_price_text r) None,
                            raw_text = orElse (ex_raw r) None\<rparr>],
                 seen @ [the unit_key']) rs)"

text \<open>The re-normalization of the previous snapshot's units in \<open>main\<close>.\<close>

definition pp_prevUnits :: "unit_rec list \<Rightarrow> unit_rec list" where
  "pp_prevUnits prevUnitsRaw =
     filter (\<lambda>u. truthy (unit_key u))
       (map (\<lambda>u.
          (let unit_key' =
                 orElse (orElse (unit_key u) (normalizeUnitKeyFromNumber (unit_number u)))
                        (case unit_id u of
                           None \<Rightarrow> None
                         | Some i \<Rightarrow> if startsWith i ''unit:'' then unit_id u else None);
               unit_number' =
                 orElse (orElse (unit_number u) (unitNumberFromUnitKey unit_key'))
                        (unitNumberFromUnitKey (unit_id u))
           in u\<lparr>unit_key := unit_key', unit_number := unit_number'\<rparr>))
          prevUnitsRaw)"

section \<open>The store: unit\_snapshots and unit\_events\<close>

datatype error = DbError string | ScrapeError string

record event =
  property_id :: string
  event_date :: string
  event_unit_key :: string
  event_unit_number :: "string option"
  event_type :: string
  source :: string

record snapshot =
  snapshot_property_id :: string
  snapshot_date :: string
  units_json :: "unit_rec list"

record store =
  unit_snapshots :: "snapshot list"
  unit_events :: "event list"

text \<open>
  What the scripts cannot decide themselves: whether a call to the database or to the
  scraper fails. A \<open>world\<close> gives, per property id, the error (if any) of each kind of
  database call, and per URL the result of the page extraction. A failed call changes
  nothing.
\<close>

record world =
  select_error :: "string \<Rightarrow> error option"
  upsert_error :: "string \<Rightarrow> error option"
  delete_error :: "string \<Rightarrow> error option"
  insert_error :: "string \<Rightarrow> error option"
  extractAvailableUnitsFromDom :: "string \<Rightarrow> error + unit_rec list"

text \<open>The filter \<open>.eq("property_id", p).eq("event_date", d).eq("source", src)\<close>.\<close>

definition event_matches :: "string \<Rightarrow> string \<Rightarrow> string \<Rightarrow> event \<Rightarrow> bool" where
  "event_matches p d src e = (property_id e = p \<and> event_date e = d \<and> source e = src)"

definition delete_events :: "string \<Rightarrow> string \<Rightarrow> string \<Rightarrow> store \<Rightarrow> store" where
  "delete_events p d src s =
     s\<lparr>unit_events := filter (\<lambda>e. \<not> event_matches p d src e) (unit_events s)\<rparr>"

definition insert_events :: "event list \<Rightarrow> store \<Rightarrow> store" where
  "insert_events rows s = s\<lparr>unit_events := unit_events s @ rows\<rparr>"

text \<open>\<open>.upsert(row, { onConflict: "property_id,snapshot_date" })\<close>.\<close>

definition upsert_snapshot :: "snapshot \<Rightarrow> store \<Rightarrow> store" where
  "upsert_snapshot row s =
     (if \<exists>r \<in> set (unit_snapshots s).
           snapshot_property_id r = snapshot_property_id row \<and> snapshot_date r = snapshot_date row
      then s\<lparr>unit_snapshots :=
               map (\<lambda>r. if snapshot_property_id r = snapshot_property_id row \<and>
                            snapshot_date r = snapshot_date row
                         then row else r) (unit_snapshots s)\<rparr>
      else s\<lparr>unit_snapshots := unit_snapshots s @ [row]\<rparr>)"

text \<open>\<open>.order("snapshot\_date", { ascending: false })\<close>.\<close>

definition order_desc :: "snapshot list \<Rightarrow> snapshot list" where
  "order_desc rows = rev (sort_key snapshot_date rows)"

section \<open>diff\_snapshots\_to\_unit\_events.js: writing events and the batch loop\<close>

text \<open>
  \<open>EVENT_SOURCE\<close> and \<open>SNAPSHOT_DATE\<close> are read from the environment and passed as parameters
  (\<open>SNAPSHOT_DATE\<close> is the empty string when unset). \<open>writeEvents_rows\<close> is the part of
  \<open>writeEvents\<close> that builds \<open>rows\<close>. A function that can throw after a database write
  returns the store it leaves together with the error or the result.
\<close>

definition writeEvents_rows ::
  "string \<Rightarrow> string \<Rightarrow> string \<Rightarrow> string list \<Rightarrow> string list \<Rightarrow> unit_map \<Rightarrow> event list" where
  "writeEvents_rows EVENT_SOURCE propertyId eventDate appearedKeys disappearedKeys currMap =
     map (\<lambda>k. \<lparr>property_id = propertyId, event_date = eventDate, event_unit_key = k,
               event_unit_number =
                 orElse (orElse (case Map_get currMap k of None \<Rightarrow> None
                                 | Some en \<Rightarrow> entry_unit_number en)
                                (unitNumberFromKey (Some k))) None,
               event_type = ''appeared'', source = EVENT_SOURCE\<rparr>) appearedKeys @
     map (\<lambda>k. \<lparr>property_id = propertyId, event_date = eventDate, event_unit_key = k,
               event_unit_number = orElse (unitNumberFromKey (Some k)) None,
               event_type = ''disappeared'', source = EVENT_SOURCE\<rparr>) disappearedKeys"

definition writeEvents ::
  "world \<Rightarrow> string \<Rightarrow> string \<Rightarrow> string \<Rightarrow> string list \<Rightarrow> string list \<Rightarrow> unit_map \<Rightarrow> store
     \<Rightarrow> store \<times> (error + nat)" where
  "writeEvents w EVENT_SOURCE propertyId eventDate appearedKeys disappearedKeys currMap s =
     (case delete_error w propertyId of
        Some delErr \<Rightarrow> (s, Inl delErr)
      | None \<Rightarrow>
          (let s1 = delete_events propertyId eventDate EVENT_SOURCE s;
               rows = writeEvents_rows EVENT_SOURCE propertyId eventDate
                        appearedKeys disappearedKeys currMap
           in if length rows = 0 then (s1, Inr 0)
              else case insert_error w propertyId of
                     Some insErr \<Rightarrow> (s1, Inl insErr)
                   | None \<Rightarrow> (insert_events rows s1, Inr (length rows))))"

text \<open>
  The row builder of \<open>writeEvents\<close> in diff\_snapshots\_to\_unit\_events\_v2.js (the second
  script of the same source file), which also receives \<open>prevMap\<close>.
\<close>

definition writeEvents_v2_rows ::
  "string \<Rightarrow> string \<Rightarrow> string \<Rightarrow> string list \<Rightarrow> string list \<Rightarrow> unit_map \<Rightarrow> unit_map
     \<Rightarrow> event list" where
  "writeEvents_v2_rows EVENT_SOURCE propertyId eventDate appearedKeys disappearedKeys currMap prevMap =
     map (\<lambda>k. \<lparr>property_id = propertyId, event_date = eventDate, event_unit_key = k,
               event_unit_number =
                 orElse (orElse (case Map_get currMap k of None \<Rightarrow> None
                                 | Some en \<Rightarrow> entry_unit_number en)
                                (unitNumberFromKey (Some k))) None,
               event_type = ''appeared'', source = EVENT_SOURCE\<rparr>) appearedKeys @
     map (\<lambda>k. \<lparr>property_id = propertyId, event_date = eventDate, event_unit_key = k,
               event_unit_number =
                 orElse (orElse (case Map_get prevMap k of None \<Rightarrow> None
                                 | Some en \<Rightarrow> entry_unit_number en)
                                (unitNumberFromKey (Some k))) None,
               event_type = ''disappeared'', source = EVENT_SOURCE\<rparr>) disappearedKeys"

definition getLastTwoSnapshots :: "world \<Rightarrow> string \<Rightarrow> store \<Rightarrow> string \<Rightarrow> error + snapshot list" where
  "getLastTwoSnapshots w SNAPSHOT_DATE s propertyId =
     (case select_error w propertyId of
        Some e \<Rightarrow> Inl e
      | None \<Rightarrow>
          Inr (take 2 (order_desc
                 (filter (\<lambda>r. snapshot_property_id r = propertyId \<and>
                               (if SNAPSHOT_DATE \<noteq> [] then snapshot_date r \<le> SNAPSHOT_DATE
                                else True))
                    (unit_snapshots s)))))"

text \<open>What one pass of a batch loop prints for a property.\<close>

datatype outcome =
  Skipped string
  | Written string string nat nat nat
  | Failed string error

text \<open>The body of the \<open>try\<close> block of \<open>main\<close>, for the property \<open>p\<close>.\<close>

definition processProperty ::
  "world \<Rightarrow> string \<Rightarrow> string \<Rightarrow> string \<Rightarrow> store \<Rightarrow> store \<times> (error + outcome)" where
  "processProperty w EVENT_SOURCE SNAPSHOT_DATE p s =
     (case getLastTwoSnapshots w SNAPSHOT_DATE s p of
        Inl e \<Rightarrow> (s, Inl e)
      | Inr snaps \<Rightarrow>
          (case snaps of
             latest # prev # _ \<Rightarrow>
               (let latestDate = snapshot_date latest;
                    prevMap = buildMap (units_json prev);
                    currMap = buildMap (units_json latest);
                    d = diffKeys prevMap currMap
                in case writeEvents w EVENT_SOURCE p latestDate (appeared d) (disappeared d)
                          currMap s of
                     (s', Inl e) \<Rightarrow> (s', Inl e)
                   | (s', Inr inserted) \<Rightarrow>
                       (s', Inr (Written p latestDate (length (appeared d))
                                   (length (disappeared d)) inserted)))
           | _ \<Rightarrow> (s, Inr (Skipped p))))"

text \<open>
  The loop \<open>for (const p of props) { try { ... } catch (err) { console.error(...) } }\<close>; the
  state is the store, \<open>totalInserted\<close> and the lines printed so far.
\<close>

fun main_loop ::
  "world \<Rightarrow> string \<Rightarrow> string \<Rightarrow> string list \<Rightarrow> store \<times> nat \<times> outcome list
     \<Rightarrow> store \<times> nat \<times> outcome list" where
  "main_loop w EVENT_SOURCE SNAPSHOT_DATE [] st = st"
| "main_loop w EVENT_SOURCE SNAPSHOT_DATE (p # ps) (s, totalInserted, out) =
     (case processProperty w EVENT_SOURCE SNAPSHOT_DATE p s of
        (s', Inl err) \<Rightarrow>
          main_loop w EVENT_SOURCE SNAPSHOT_DATE ps (s', totalInserted, out @ [Failed p err])
      | (s', Inr (Written i d a b inserted)) \<Rightarrow>
          main_loop w EVENT_SOURCE SNAPSHOT_DATE ps
            (s', totalInserted + inserted, out @ [Written i d a b inserted])
      | (s', Inr oc) \<Rightarrow>
          main_loop w EVENT_SOURCE SNAPSHOT_DATE ps (s', totalInserted, out @ [oc]))"

section \<open>run\_rentcafe\_all\_with\_events.js: one property and the batch loop\<close>

fun scrape_loop :: "world \<Rightarrow> unit_rec list \<times> string list \<Rightarrow> string list \<Rightarrow> error + unit_rec list" where
  "scrape_loop w (all, seen) [] = Inr all"
| "scrape_loop w (all, seen) (url # urls) =
     (case extractAvailableUnitsFromDom w url of
        Inl e \<Rightarrow> Inl e
      | Inr units \<Rightarrow> scrape_loop w (rc_dedupe (all, seen) units) urls)"

definition scrapeRentCafeUrls :: "world \<Rightarrow> string list \<Rightarrow> error + unit_rec list" where
  "scrapeRentCafeUrls w urls = scrape_loop w ([], []) urls"

definition upsertSnapshot :: "world \<Rightarrow> string \<Rightarrow> string \<Rightarrow> unit_rec list \<Rightarrow> store \<Rightarrow> error + store" where
  "upsertSnapshot w propertyId snapshotDate units s =
     (case upsert_error w propertyId of
        Some e \<Rightarrow> Inl e
      | None \<Rightarrow>
          Inr (upsert_snapshot
                 \<lparr>snapshot_property_id = propertyId, snapshot_date = snapshotDate,
                  units_json = units\<rparr> s))"

definition getPreviousSnapshot :: "world \<Rightarrow> store \<Rightarrow> string \<Rightarrow> string \<Rightarrow> error + snapshot option" where
  "getPreviousSnapshot w s propertyId today =
     (case select_error w propertyId of
        Some e \<Rightarrow> Inl e
      | None \<Rightarrow>
          (case take 1 (order_desc
                  (filter (\<lambda>r. snapshot_property_id r = propertyId \<and> snapshot_date r < today)
                     (unit_snapshots s))) of
             [] \<Rightarrow> Inr None
           | r # _ \<Rightarrow> Inr (Some r)))"

definition rc_writeEvents_rows :: "string \<Rightarrow> string \<Rightarrow> string \<Rightarrow> string list \<Rightarrow> string list \<Rightarrow> event list" where
  "rc_writeEvents_rows EVENT_SOURCE propertyId today appeared' disappeared' =
     map (\<lambda>k. \<lparr>property_id = propertyId, event_date = today, event_unit_key = k,
               event_unit_number = (if startsWith k ''unit:'' then Some (slice5 k) else None),
               event_type = ''appeared'', source = EVENT_SOURCE\<rparr>) appeared' @
     map (\<lambda>k. \<lparr>property_id = propertyId, event_date = today, event_unit_key = k,
               event_unit_number = (if startsWith k ''unit:'' then Some (slice5 k) else None),
               event_type = ''disappeared'', source = EVENT_SOURCE\<rparr>) disappeared'"

definition rc_writeEvents ::
  "world \<Rightarrow> string \<Rightarrow> string \<Rightarrow> string \<Rightarrow> string list \<Rightarrow> string list \<Rightarrow> store
     \<Rightarrow> store \<times> (error + nat)" where
  "rc_writeEvents w EVENT_SOURCE propertyId today appeared' disappeared' s =
     (case delete_error w propertyId of
        Some delErr \<Rightarrow> (s, Inl delErr)
      | None \<Rightarrow>
          (let s1 = delete_events propertyId today EVENT_SOURCE s;
               events = rc_writeEvents_rows EVENT_SOURCE propertyId today appeared' disappeared'
           in if length events = 0 then (s1, Inr 0)
              else case insert_error w propertyId of
                     Some insErr \<Rightarrow> (s1, Inl insErr)
                   | None \<Rightarrow> (insert_events events s1, Inr (length events))))"

text \<open>
  A property of the batch, after \<open>normalizeUrlListFromRow\<close>: its id and its URL list.
  \<open>today\<close> is \<open>SNAPSHOT_DATE || todayYYYYMMDDLocal()\<close>.
\<close>

record property =
  p_id :: string
  p_urls :: "string list"

definition runOneProperty ::
  "world \<Rightarrow> string \<Rightarrow> string \<Rightarrow> property \<Rightarrow> store \<Rightarrow> store \<times> (error + outcome)" where
  "runOneProperty w EVENT_SOURCE today p s =
     (if length (p_urls p) = 0 then (s, Inr (Skipped (p_id p)))
      else case scrapeRentCafeUrls w (p_urls p) of
             Inl e \<Rightarrow> (s, Inl e)
           | Inr units \<Rightarrow>
               (case upsertSnapshot w (p_id p) today units s of
                  Inl e \<Rightarrow> (s, Inl e)
                | Inr s1 \<Rightarrow>
                    (case getPreviousSnapshot w s1 (p_id p) today of
                       Inl e \<Rightarrow> (s1, Inl e)
                     | Inr prev \<Rightarrow>
                         (let prevUnits = (case prev of None \<Rightarrow> [] | Some r \<Rightarrow> units_json r);
                              d = diffUnitKeys prevUnits units
                          in case rc_writeEvents w EVENT_SOURCE (p_id p) today
                                    (appeared d) (disappeared d) s1 of
                               (s2, Inl e) \<Rightarrow> (s2, Inl e)
                             | (s2, Inr inserted) \<Rightarrow>
                                 (s2, Inr (Written (p_id p) today (length (appeared d))
                                             (length (disappeared d)) inserted))))))"

text \<open>
  Mode B of \<open>main\<close>: \<open>for (const p of props) { ...; await runOneProperty(...) }\<close>. The third
  component of the result is the exception that leaves the loop, if any.
\<close>

fun rc_main_loop ::
  "world \<Rightarrow> string \<Rightarrow> string \<Rightarrow> property list \<Rightarrow> store \<times> outcome list
     \<Rightarrow> store \<times> outcome list \<times> error option" where
  "rc_main_loop w EVENT_SOURCE today [] (s, out) = (s, out, None)"
| "rc_main_loop w EVENT_SOURCE today (p # ps) (s, out) =
     (case runOneProperty w EVENT_SOURCE today p s of
        (s', Inl err) \<Rightarrow> (s', out, Some err)
      | (s', Inr oc) \<Rightarrow> rc_main_loop w EVENT_SOURCE today ps (s', out @ [oc]))"

section \<open>push\_prospectportal\_snapshot\_to\_supabase\_v2.js: events of a run\<close>

fun unitKeyToNumber_loop :: "(string \<times> string) list \<Rightarrow> unit_rec list \<Rightarrow> (string \<times> string) list" where
  "unitKeyToNumber_loop m [] = m"
| "unitKeyToNumber_loop m (u # us) =
     (if truthy (unit_key u) \<and> truthy (unit_number u)
      then unitKeyToNumber_loop (Map_set (the (unit_key u)) (the (unit_number u)) m) us
      else unitKeyToNumber_loop m us)"

definition pp_events :: "string \<Rightarrow> string \<Rightarrow> string \<Rightarrow> unit_rec list \<Rightarrow> diff \<Rightarrow> event list" where
  "pp_events PROPERTY_ID snapshotDate EVENT_SOURCE unitsToday d =
     (let unitKeyToNumber = unitKeyToNumber_loop [] unitsToday
      in map (\<lambda>k. \<lparr>property_id = PROPERTY_ID, event_date = snapshotDate, event_unit_key = k,
                    event_unit_number =
                      orElse (Map_get unitKeyToNumber k) (unitNumberFromUnitKey (Some k)),
                    event_type = ''appeared'', source = EVENT_SOURCE\<rparr>) (appeared d) @
         map (\<lambda>k. \<lparr>property_id = PROPERTY_ID, event_date = snapshotDate, event_unit_key = k,
                    event_unit_number =
                      orElse (Map_get unitKeyToNumber k) (unitNumberFromUnitKey (Some k)),
                    event_type = ''disappeared'', source = EVENT_SOURCE\<rparr>) (disappeared d))"

definition replaceEventsForDay ::
  "world \<Rightarrow> string \<Rightarrow> string \<Rightarrow> string \<Rightarrow> event list \<Rightarrow> store \<Rightarrow> store \<times> (error + unit)" where
  "replaceEventsForDay w propertyId eventDate source' events s =
     (case delete_error w propertyId of
        Some delErr \<Rightarrow> (s, Inl delErr)
      | None \<Rightarrow>
          (let s1 = delete_events propertyId eventDate source' s
           in if length events = 0 then (s1, Inr ())
              else case insert_error w propertyId of
                     Some insErr \<Rightarrow> (s1, Inl insErr)
                   | None \<Rightarrow> (insert_events events s1, Inr ())))"

section \<open>Specification vocabulary\<close>

text \<open>
  A persisted unit carries a canonical key when its \<open>unit_key\<close> is a trimmed string that
  starts with \<open>unit:\<close>, repeated in \<open>unit_id\<close>, and its \<open>unit_number\<close> is not empty.
\<close>

definition carriesCanonicalKey :: "unit_rec \<Rightarrow> bool" where
  "carriesCanonicalKey u =
     (case unit_key u of
        None \<Rightarrow> False
      | Some k \<Rightarrow> startsWith k ''unit:'' \<and> trim k = k \<and> unit_id u = Some k \<and>
                  truthy (unit_number u))"

text \<open>The property a printed line is about.\<close>

fun outcome_property :: "outcome \<Rightarrow> string" where
  "outcome_property (Skipped i) = i"
| "outcome_property (Written i d a b n) = i"
| "outcome_property (Failed i e) = i"

text \<open>
  Concrete inputs: a unit record with only \<open>unit_id\<close> and \<open>unit_number\<close> set, and a world in
  which no call fails and every page lists no unit.
\<close>

definition rawUnit :: "string option \<Rightarrow> string option \<Rightarrow> unit_rec" where
  "rawUnit i n =
     \<lparr>unit_key = None, unit_id = i, unit_number = n, available_on = None, page_url = None,
      price_text = None, raw_text = None\<rparr>"

definition quietWorld :: world where
  "quietWorld =
     \<lparr>select_error = (\<lambda>p. None), upsert_error = (\<lambda>p. None), delete_error = (\<lambda>p. None),
      insert_error = (\<lambda>p. None), extractAvailableUnitsFromDom = (\<lambda>url. Inr [])\<rparr>"

section \<open>Lemmas about trimming\<close>

lemma trim_pad:
  assumes "list_all isWhitespace ws1" and "list_all isWhitespace ws2"
  shows "trim (ws1 @ n @ ws2) = trim n"
proof -
  have l: "dropWhile isWhitespace (ws1 @ n @ ws2) = dropWhile isWhitespace (n @ ws2)"
    using assms(1) by (simp add: list_all_iff)
  show ?thesis
  proof (cases "list_all isWhitespace n")
    case True
    have "\<forall>x \<in> set (n @ ws2). isWhitespace x"
      using True assms(2) by (auto simp: list_all_iff)
    then have a: "dropWhile isWhitespace (n @ ws2) = []"
      by (simp only: dropWhile_eq_Nil_conv)
    have b: "dropWhile isWhitespace n = []"
      using True by (simp add: list_all_iff)
    show ?thesis unfolding trim_def l a b by simp
  next
    case False
    then obtain x where x: "x \<in> set n" "\<not> isWhitespace x"
      by (auto simp: list_all_iff)
    then have a: "dropWhile isWhitespace (n @ ws2) = dropWhile isWhitespace n @ ws2"
      by (simp add: dropWhile_append1)
    have b: "dropWhile isWhitespace (rev ws2 @ rev (dropWhile isWhitespace n))
        = dropWhile isWhitespace (rev (dropWhile isWhitespace n))"
      using assms(2) by (intro dropWhile_append2) (simp add: list_all_iff)
    show ?thesis unfolding trim_def l a rev_append b by simp
  qed
qed

lemma last_dropWhile_keep:
  "dropWhile P xs \<noteq> [] \<Longrightarrow> last (dropWhile P xs) = last xs"
  by (induction xs) (auto split: if_splits)

lemma trim_ends:
  assumes "trim s \<noteq> []"
  shows "\<not> isWhitespace (hd (trim s)) \<and> \<not> isWhitespace (last (trim s))"
proof -
  let ?d = "dropWhile isWhitespace s"
  let ?e = "dropWhile isWhitespace (rev ?d)"
  have e: "?e \<noteq> []" using assms by (simp add: trim_def)
  have d: "?d \<noteq> []"
  proof
    assume a: "?d = []"
    have "?e = []" unfolding a by simp
    with e show False by contradiction
  qed
  have "\<not> isWhitespace (hd ?e)" using e by (rule hd_dropWhile)
  then have l: "\<not> isWhitespace (last (trim s))"
    using e by (simp add: trim_def last_rev)
  have "last ?e = last (rev ?d)" using e by (rule last_dropWhile_keep)
  then have "hd (trim s) = hd ?d"
    using e d by (simp add: trim_def hd_rev last_rev)
  moreover have "\<not> isWhitespace (hd ?d)" using d by (rule hd_dropWhile)
  ultimately show ?thesis using l by simp
qed

lemma trim_fixed:
  assumes "s \<noteq> []" "\<not> isWhitespace (hd s)" "\<not> isWhitespace (last s)"
  shows "trim s = s"
proof -
  have a: "dropWhile isWhitespace s = s"
    using assms by (simp add: dropWhile_eq_self_iff)
  have b: "dropWhile isWhitespace (rev s) = rev s"
    using assms by (simp add: dropWhile_eq_self_iff hd_rev)
  show ?thesis unfolding trim_def a b by simp
qed

lemma trim_trim: "trim (trim s) = trim s"
proof (cases "trim s = []")
  case True
  have "trim [] = []" by (simp add: trim_def)
  then show ?thesis unfolding True .
next
  case False
  then show ?thesis using trim_ends [OF False] by (intro trim_fixed) auto
qed

lemma trim_unit_prefix:
  assumes "trim s \<noteq> []"
  shows "trim (''unit:'' @ trim s) = ''unit:'' @ trim s"
proof (rule trim_fixed)
  show "''unit:'' @ trim s \<noteq> []" by simp
  show "\<not> isWhitespace (hd (''unit:'' @ trim s))" by (simp add: isWhitespace_def)
  show "\<not> isWhitespace (last (''unit:'' @ trim s))"
    using assms trim_ends [OF assms] by simp
qed

lemma normalizeUnitKeyFromNumber_canonical:
  assumes "normalizeUnitKeyFromNumber x = Some k"
  shows "startsWith k ''unit:'' \<and> trim k = k \<and> k \<noteq> []"
proof -
  let ?n = "trim (case x of None \<Rightarrow> [] | Some s \<Rightarrow> s)"
  have n: "?n \<noteq> []" and k: "k = (if startsWith ?n ''unit:'' then ?n else ''unit:'' @ ?n)"
    using assms by (auto simp: normalizeUnitKeyFromNumber_def normalizeUnitNumber_def Let_def split: if_splits)
  show ?thesis
  proof (cases "startsWith ?n ''unit:''")
    case True
    then show ?thesis using k n trim_trim by simp
  next
    case False
    then show ?thesis using k n trim_unit_prefix [OF n] by (simp add: startsWith_def)
  qed
qed

lemma normalizeUnitKeyFromNumber_fixed:
  assumes "startsWith k ''unit:''" "trim k = k"
  shows "normalizeUnitKeyFromNumber (Some k) = Some k"
  using assms by (auto simp: normalizeUnitKeyFromNumber_def normalizeUnitNumber_def startsWith_def)

section \<open>Claims about the key normalizer\<close>

text \<open>
  Claim C3. Two raw records that differ only by whitespace around the unit number get the
  same key from \<open>normalizeUnitKey\<close>, and the same number and key from
  \<open>normalizeUnitNumber\<close> and \<open>normalizeUnitKeyFromNumber\<close>; the records with unit
  number \<open>217\<close> and \<open> 217 \<close> both get \<open>unit:217\<close>.
\<close>

theorem unit_key_whitespace_stable:
  assumes "list_all isWhitespace a1" and "list_all isWhitespace a2"
    and "list_all isWhitespace b1" and "list_all isWhitespace b2"
  shows "normalizeUnitKey (u\<lparr>unit_number := Some (a1 @ n @ a2)\<rparr>) =
           normalizeUnitKey (u\<lparr>unit_number := Some (b1 @ n @ b2)\<rparr>) \<and>
         normalizeUnitNumber (Some (a1 @ n @ a2)) = normalizeUnitNumber (Some (b1 @ n @ b2)) \<and>
         normalizeUnitKeyFromNumber (Some (a1 @ n @ a2)) =
           normalizeUnitKeyFromNumber (Some (b1 @ n @ b2)) \<and>
         normalizeUnitKey \<lparr>unit_key = None, unit_id = None, unit_number = Some ''217'',
            available_on = None, page_url = None, price_text = None, raw_text = None\<rparr>
           = Some ''unit:217'' \<and>
         normalizeUnitKey \<lparr>unit_key = None, unit_id = None, unit_number = Some '' 217 '',
            available_on = None, page_url = None, price_text = None, raw_text = None\<rparr>
           = Some ''unit:217''"
proof -
  have t: "trim (a1 @ n @ a2) = trim (b1 @ n @ b2)"
    using assms by (simp add: trim_pad)
  have k: "normalizeUnitKey (u\<lparr>unit_number := Some (a1 @ n @ a2)\<rparr>) =
           normalizeUnitKey (u\<lparr>unit_number := Some (b1 @ n @ b2)\<rparr>)"
    by (simp add: normalizeUnitKey_def t)
  have m: "normalizeUnitNumber (Some (a1 @ n @ a2)) = normalizeUnitNumber (Some (b1 @ n @ b2))"
    by (simp add: normalizeUnitNumber_def t)
  have c1: "normalizeUnitKey \<lparr>unit_key = None, unit_id = None, unit_number = Some ''217'',
            available_on = None, page_url = None, price_text = None, raw_text = None\<rparr>
           = Some ''unit:217''"
    by (simp add: normalizeUnitKey_def startsWith_def trim_def isWhitespace_def)
  have c2: "normalizeUnitKey \<lparr>unit_key = None, unit_id = None, unit_number = Some '' 217 '',
            available_on = None, page_url = None, price_text = None, raw_text = None\<rparr>
           = Some ''unit:217''"
    by (simp add: normalizeUnitKey_def startsWith_def trim_def isWhitespace_def)
  show ?thesis using k m c1 c2 by (simp add: normalizeUnitKeyFromNumber_def)
qed

text \<open>The same at a unit number padded with a blank and a tab.\<close>

theorem unit_key_whitespace_stable_witness:
  "list_all isWhitespace '' '' \<and> list_all isWhitespace [CHR 0x09] \<and>
   normalizeUnitKey \<lparr>unit_key = None, unit_id = None, unit_number = Some ('' '' @ ''217'' @ [CHR 0x09]),
      available_on = None, page_url = None, price_text = None, raw_text = None\<rparr> =
   normalizeUnitKey \<lparr>unit_key = None, unit_id = None, unit_number = Some ''217'',
      available_on = None, page_url = None, price_text = None, raw_text = None\<rparr>"
proof -
  have a: "list_all isWhitespace '' ''" and b: "list_all isWhitespace [CHR 0x09]"
    and e: "list_all isWhitespace []"
    by (simp_all add: isWhitespace_def)
  show ?thesis
    using a b unit_key_whitespace_stable [where n = "''217''" and u = "\<lparr>unit_key = None,
      unit_id = None, unit_number = None, available_on = None, page_url = None,
      price_text = None, raw_text = None\<rparr>", OF a b e e]
    by simp
qed

text \<open>
  Claim C4. The normalizer applies its rules in order: a \<open>unit_id\<close> that starts with
  \<open>unit:\<close> is the key, verbatim; otherwise a non-empty trimmed unit number \<open>n\<close> gives the
  key \<open>unit:n\<close> and the unit number \<open>n\<close>; otherwise a non-empty \<open>unit_id\<close> gives the key
  \<open>id:\<close> followed by it, with no unit number; otherwise there is no key and \<open>buildMap\<close>
  keeps nothing of the record.
\<close>

theorem normalizer_rules_in_order:
  "normalizeUnitKey u =
     (if startsWith (case unit_id u of None \<Rightarrow> [] | Some i \<Rightarrow> i) ''unit:'' then unit_id u
      else if trim (case unit_number u of None \<Rightarrow> [] | Some n \<Rightarrow> n) \<noteq> []
        then Some (''unit:'' @ trim (case unit_number u of None \<Rightarrow> [] | Some n \<Rightarrow> n))
      else if unit_id u \<noteq> None \<and> unit_id u \<noteq> Some []
        then Some (''id:'' @ the (unit_id u))
      else None) \<and>
   buildMap [u] =
     (if startsWith (case unit_id u of None \<Rightarrow> [] | Some i \<Rightarrow> i) ''unit:''
        then [(the (unit_id u),
               \<lparr>entry_unit_number =
                  (if trim (case unit_number u of None \<Rightarrow> [] | Some n \<Rightarrow> n) \<noteq> []
                   then Some (trim (case unit_number u of None \<Rightarrow> [] | Some n \<Rightarrow> n))
                   else if drop 5 (the (unit_id u)) \<noteq> [] then Some (drop 5 (the (unit_id u)))
                   else None),
                raw = u\<rparr>)]
      else if trim (case unit_number u of None \<Rightarrow> [] | Some n \<Rightarrow> n) \<noteq> []
        then [(''unit:'' @ trim (case unit_number u of None \<Rightarrow> [] | Some n \<Rightarrow> n),
               \<lparr>entry_unit_number = Some (trim (case unit_number u of None \<Rightarrow> [] | Some n \<Rightarrow> n)),
                raw = u\<rparr>)]
      else if unit_id u \<noteq> None \<and> unit_id u \<noteq> Some []
        then [(''id:'' @ the (unit_id u), \<lparr>entry_unit_number = None, raw = u\<rparr>)]
      else [])"
proof -
  have trim_Nil: "trim [] = []" by (simp add: trim_def)
  show ?thesis
    by (cases "unit_id u"; cases "unit_number u")
      (auto simp: normalizeUnitKey_def buildMap_def truthy_def orElse_def unitNumberFromKey_def
        Map_set_def Let_def startsWith_def slice5_def trim_Nil)
qed

section \<open>Lemmas about key sets\<close>

lemma trim_Nil: "trim [] = []"
  by (simp add: trim_def)

lemma trim_all_whitespace: "list_all isWhitespace n \<Longrightarrow> trim n = []"
  using trim_pad [of n "[]" "[]"] by (simp add: trim_Nil)

lemma normalizeUnitKey_nonempty: "normalizeUnitKey u \<noteq> Some []"
  by (auto simp: normalizeUnitKey_def Let_def startsWith_def)

lemma truthy_normalizeUnitKey: "truthy (normalizeUnitKey u) \<longleftrightarrow> normalizeUnitKey u \<noteq> None"
  using normalizeUnitKey_nonempty [of u] by (cases "normalizeUnitKey u") (auto simp: truthy_def)

lemma newSet_loop_set: "set (newSet_loop seen xs) = set seen \<union> set xs"
  by (induction seen xs rule: newSet_loop.induct) auto

lemma newSet_loop_distinct: "distinct seen \<Longrightarrow> distinct (newSet_loop seen xs)"
  by (induction seen xs rule: newSet_loop.induct) auto

lemma newSet_set: "set (newSet xs) = set xs"
  by (simp add: newSet_def newSet_loop_set)

lemma newSet_distinct: "distinct (newSet xs)"
  by (simp add: newSet_def newSet_loop_distinct)

lemma Map_keys_set: "set (Map_keys (Map_set k v m)) = insert k (set (Map_keys m))"
  by (simp add: Map_keys_def Map_set_def dom_update)

lemma buildMap_loop_keys:
  "set (Map_keys (buildMap_loop m us)) =
     set (Map_keys m) \<union> {k. \<exists>u \<in> set us. normalizeUnitKey u = Some k}"
proof (induction us arbitrary: m)
  case Nil
  then show ?case by simp
next
  case (Cons u us)
  show ?case
  proof (cases "normalizeUnitKey u")
    case None
    then show ?thesis using Cons by (auto simp: truthy_def)
  next
    case (Some k)
    then have "truthy (normalizeUnitKey u)"
      using truthy_normalizeUnitKey [of u] by simp
    then show ?thesis using Some Cons by (auto simp: Let_def Map_keys_set)
  qed
qed

lemma buildMap_keys: "set (Map_keys (buildMap us)) = {k. \<exists>u \<in> set us. normalizeUnitKey u = Some k}"
  unfolding buildMap_def buildMap_loop_keys by (simp add: Map_keys_def)

lemma buildMap_loop_append:
  "buildMap_loop m (xs @ ys) = buildMap_loop (buildMap_loop m xs) ys"
  by (induction xs arbitrary: m) (simp_all add: Let_def)

lemma diff_pattern:
  "set (filter (\<lambda>k. k \<notin> set (newSet P)) (newSet C)) = set C - set P \<and>
   set (filter (\<lambda>k. k \<notin> set (newSet C)) (newSet P)) = set P - set C \<and>
   distinct (filter (\<lambda>k. k \<notin> set (newSet P)) (newSet C)) \<and>
   distinct (filter (\<lambda>k. k \<notin> set (newSet C)) (newSet P))"
  by (auto simp: newSet_set newSet_distinct)

lemma truthy_keys_set:
  "set (map the (filter truthy (map f us))) = {k. k \<noteq> [] \<and> (\<exists>u \<in> set us. f u = Some k)}"
proof safe
  fix k assume "k \<in> set (map the (filter truthy (map f us)))"
  then obtain u where "u \<in> set us" "truthy (f u)" "k = the (f u)" by auto
  then show "\<exists>u \<in> set us. f u = Some k"
    by (auto simp: truthy_def split: option.splits)
next
  assume "[] \<in> set (map the (filter truthy (map f us)))"
  then obtain u where "u \<in> set us" "truthy (f u)" "[] = the (f u)" by auto
  then show False
    by (auto simp: truthy_def split: option.splits)
next
  fix k u assume k: "k \<noteq> []" and u: "u \<in> set us" and f: "f u = Some k"
  have "truthy (f u)" "the (f u) = k" using k f by (simp_all add: truthy_def)
  then show "k \<in> set (map the (filter truthy (map f us)))" using u by force
qed

lemma unitKeyForEvents_nonempty: "unitKeyForEvents u \<noteq> Some []"
  by (simp add: unitKeyForEvents_def orElse_def truthy_def)

section \<open>Claims about the diff engine\<close>

text \<open>
  Claim C1. For all unit lists \<open>prev\<close> and \<open>curr\<close>, each of the three diff functions
  (\<open>diffKeys\<close> on the maps built by \<open>buildMap\<close>, \<open>diffUnitKeys\<close>, and the \<open>diffKeys\<close> of the
  ProspectPortal runner) returns as \<open>appeared\<close> the keys of \<open>curr\<close> that are not keys of
  \<open>prev\<close> and as \<open>disappeared\<close> the keys of \<open>prev\<close> that are not keys of \<open>curr\<close>; the two
  are disjoint, and the keys of \<open>prev\<close> without \<open>disappeared\<close>, with \<open>appeared\<close> added, are
  the keys of \<open>curr\<close>. The keys of a list are those its own key function yields.
\<close>

theorem diff_engine_set_algebra:
  fixes prev curr :: "unit_rec list"
  defines "A \<equiv> \<lambda>units. {k. \<exists>u \<in> set units. normalizeUnitKey u = Some k}"
    and "B \<equiv> \<lambda>units. {k. \<exists>u \<in> set units. unitKeyForEvents u = Some k}"
    and "C \<equiv> \<lambda>units. {k. k \<noteq> [] \<and> (\<exists>u \<in> set units. unit_key u = Some k)}"
  shows "set (appeared (diffKeys (buildMap prev) (buildMap curr))) = A curr - A prev \<and>
         set (disappeared (diffKeys (buildMap prev) (buildMap curr))) = A prev - A curr \<and>
         set (appeared (diffKeys (buildMap prev) (buildMap curr))) \<inter>
           set (disappeared (diffKeys (buildMap prev) (buildMap curr))) = {} \<and>
         (A prev - set (disappeared (diffKeys (buildMap prev) (buildMap curr)))) \<union>
           set (appeared (diffKeys (buildMap prev) (buildMap curr))) = A curr \<and>
         set (appeared (diffUnitKeys prev curr)) = B curr - B prev \<and>
         set (disappeared (diffUnitKeys prev curr)) = B prev - B curr \<and>
         set (appeared (diffUnitKeys prev curr)) \<inter> set (disappeared (diffUnitKeys prev curr)) = {} \<and>
         (B prev - set (disappeared (diffUnitKeys prev curr))) \<union>
           set (appeared (diffUnitKeys prev curr)) = B curr \<and>
         set (appeared (pp_diffKeys prev curr)) = C curr - C prev \<and>
         set (disappeared (pp_diffKeys prev curr)) = C prev - C curr \<and>
         set (appeared (pp_diffKeys prev curr)) \<inter> set (disappeared (pp_diffKeys prev curr)) = {} \<and>
         (C prev - set (disappeared (pp_diffKeys prev curr))) \<union>
           set (appeared (pp_diffKeys prev curr)) = C curr"
proof -
  have a1: "set (appeared (diffKeys (buildMap prev) (buildMap curr))) = A curr - A prev"
    and a2: "set (disappeared (diffKeys (buildMap prev) (buildMap curr))) = A prev - A curr"
    unfolding A_def by (simp_all only: diffKeys_def Let_def diff_pattern diff.simps buildMap_keys)
  have bk: "\<And>us. set (map the (filter truthy (map unitKeyForEvents us))) = B us"
    unfolding B_def truthy_keys_set using unitKeyForEvents_nonempty by (auto; metis)
  have b1: "set (appeared (diffUnitKeys prev curr)) = B curr - B prev"
    and b2: "set (disappeared (diffUnitKeys prev curr)) = B prev - B curr"
    by (simp_all only: diffUnitKeys_def Let_def diff_pattern diff.simps bk)
  have ck: "\<And>us. set (map the (filter truthy (map unit_key us))) = C us"
    unfolding C_def truthy_keys_set by simp
  have c1: "set (appeared (pp_diffKeys prev curr)) = C curr - C prev"
    and c2: "set (disappeared (pp_diffKeys prev curr)) = C prev - C curr"
    by (simp_all only: pp_diffKeys_def Let_def diff_pattern diff.simps ck)
  show ?thesis unfolding a1 a2 b1 b2 c1 c2 by blast
qed

section \<open>Lemmas about persisted units\<close>

lemma carriesCanonicalKey_fixed:
  assumes "carriesCanonicalKey u"
  shows "normalizeUnitKey u = unit_key u"
    and "(\<lambda>u. u\<lparr>unit_key :=
            orElse (orElse (unit_key u) (normalizeUnitKeyFromNumber (unit_number u)))
              (case unit_id u of None \<Rightarrow> None
               | Some i \<Rightarrow> if startsWith i ''unit:'' then unit_id u else None),
          unit_number :=
            orElse (orElse (unit_number u)
                      (unitNumberFromUnitKey
                         (orElse (orElse (unit_key u) (normalizeUnitKeyFromNumber (unit_number u)))
                            (case unit_id u of None \<Rightarrow> None
                             | Some i \<Rightarrow> if startsWith i ''unit:'' then unit_id u else None))))
              (unitNumberFromUnitKey (unit_id u))\<rparr>) u = u"
    and "truthy (unit_key u)"
proof -
  obtain k where k: "unit_key u = Some k" "startsWith k ''unit:''" "unit_id u = Some k"
    "truthy (unit_number u)"
    using assms by (auto simp: carriesCanonicalKey_def split: option.splits)
  then have ne: "k \<noteq> []" by (auto simp: startsWith_def)
  show "normalizeUnitKey u = unit_key u"
    using k by (simp add: normalizeUnitKey_def)
  show t: "truthy (unit_key u)" using k ne by (simp add: truthy_def)
  show "(\<lambda>u. u\<lparr>unit_key :=
            orElse (orElse (unit_key u) (normalizeUnitKeyFromNumber (unit_number u)))
              (case unit_id u of None \<Rightarrow> None
               | Some i \<Rightarrow> if startsWith i ''unit:'' then unit_id u else None),
          unit_number :=
            orElse (orElse (unit_number u)
                      (unitNumberFromUnitKey
                         (orElse (orElse (unit_key u) (normalizeUnitKeyFromNumber (unit_number u)))
                            (case unit_id u of None \<Rightarrow> None
                             | Some i \<Rightarrow> if startsWith i ''unit:'' then unit_id u else None))))
              (unitNumberFromUnitKey (unit_id u))\<rparr>) u = u"
    using t k(4) by (simp add: orElse_def)
qed

lemma pp_prevUnits_fixed:
  assumes "list_all carriesCanonicalKey units"
  shows "pp_prevUnits units = units"
  using assms
proof (induction units)
  case Nil
  then show ?case by (simp add: pp_prevUnits_def)
next
  case (Cons u us)
  then have c: "carriesCanonicalKey u" and r: "pp_prevUnits us = us" by simp_all
  show ?case
    using r carriesCanonicalKey_fixed(2,3) [OF c]
    by (simp add: pp_prevUnits_def Let_def)
qed

lemma pp_collect_canonical:
  "list_all carriesCanonicalKey units \<Longrightarrow>
   list_all carriesCanonicalKey (fst (pp_collect (units, seen) rs))"
proof (induction rs arbitrary: units seen)
  case Nil
  then show ?case by simp
next
  case (Cons r rs)
  let ?n = "normalizeUnitNumber (ex_unit_number r)"
  let ?k = "normalizeUnitKeyFromNumber ?n"
  show ?case
  proof (cases "truthy ?k \<and> the ?k \<notin> set seen")
    case False
    then show ?thesis using Cons by (auto simp: Let_def)
  next
    case True
    then obtain k where k: "?k = Some k" by (auto simp: truthy_def split: option.splits)
    have can: "startsWith k ''unit:'' \<and> trim k = k \<and> k \<noteq> []"
      using k by (rule normalizeUnitKeyFromNumber_canonical)
    have n: "truthy ?n"
      using k by (auto simp: normalizeUnitKeyFromNumber_def normalizeUnitNumber_def truthy_def
          trim_Nil Let_def split: option.splits if_splits)
    have "carriesCanonicalKey \<lparr>unit_key = ?k, unit_id = ?k, unit_number = ?n,
             available_on = orElse (ex_available_on r) None, page_url = ex_page_url r,
             price_text = orElse (ex_price_text r) None, raw_text = orElse (ex_raw r) None\<rparr>"
      using k can n by (simp add: carriesCanonicalKey_def)
    then show ?thesis using True Cons.prems
      by (simp add: Let_def Cons.IH)
  qed
qed

lemma normalizeUnitKey_explicit:
  "startsWith k ''unit:'' \<Longrightarrow> normalizeUnitKey (u\<lparr>unit_id := Some k\<rparr>) = Some k"
  by (simp add: normalizeUnitKey_def)

section \<open>Claims about canonical keys\<close>

text \<open>
  Claim C10. Key normalization is idempotent on canonical input. A key \<open>k\<close> that
  \<open>normalizeUnitKeyFromNumber\<close> has produced is returned unchanged when it is normalized
  again (\<open>unit:217\<close> stays \<open>unit:217\<close>, with no second prefix), and a record whose
  \<open>unit_id\<close> is \<open>k\<close> gets the key \<open>k\<close> from \<open>normalizeUnitKey\<close>. So the units that the
  ProspectPortal runner persists are left as they are when its \<open>main\<close> reads them back
  and re-normalizes them, and the snapshot differ gives each of them its stored key.
\<close>

theorem canonical_key_idempotent:
  assumes "normalizeUnitKeyFromNumber x = Some k"
  shows "normalizeUnitKeyFromNumber (Some k) = Some k \<and>
         normalizeUnitKey (u\<lparr>unit_id := Some k\<rparr>) = Some k \<and>
         normalizeUnitKeyFromNumber (Some ''unit:217'') = Some ''unit:217'' \<and>
         pp_prevUnits (fst (pp_collect ([], []) rs)) = fst (pp_collect ([], []) rs) \<and>
         map normalizeUnitKey (fst (pp_collect ([], []) rs)) =
           map unit_key (fst (pp_collect ([], []) rs))"
proof -
  have can: "startsWith k ''unit:'' \<and> trim k = k \<and> k \<noteq> []"
    using assms by (rule normalizeUnitKeyFromNumber_canonical)
  have a: "normalizeUnitKeyFromNumber (Some k) = Some k"
    using can by (simp add: normalizeUnitKeyFromNumber_fixed)
  have b: "normalizeUnitKey (u\<lparr>unit_id := Some k\<rparr>) = Some k"
    using can by (simp add: normalizeUnitKey_explicit)
  have c: "normalizeUnitKeyFromNumber (Some ''unit:217'') = Some ''unit:217''"
    by (simp add: normalizeUnitKeyFromNumber_def normalizeUnitNumber_def startsWith_def
        trim_def isWhitespace_def)
  have all: "list_all carriesCanonicalKey (fst (pp_collect ([], []) rs))"
    by (rule pp_collect_canonical) simp
  have d: "pp_prevUnits (fst (pp_collect ([], []) rs)) = fst (pp_collect ([], []) rs)"
    using all by (rule pp_prevUnits_fixed)
  have e: "map normalizeUnitKey (fst (pp_collect ([], []) rs)) =
           map unit_key (fst (pp_collect ([], []) rs))"
    using all by (simp add: list_all_iff carriesCanonicalKey_fixed(1))
  show ?thesis using a b c d e by simp
qed

text \<open>The same at a key produced from the raw unit number \<open> 217 \<close>.\<close>

theorem canonical_key_idempotent_witness:
  "normalizeUnitKeyFromNumber (Some '' 217 '') = Some ''unit:217'' \<and>
   normalizeUnitKeyFromNumber (Some ''unit:217'') = Some ''unit:217'' \<and>
   normalizeUnitKey \<lparr>unit_key = None, unit_id = Some ''unit:217'', unit_number = Some ''9'',
      available_on = None, page_url = None, price_text = None, raw_text = None\<rparr>
     = Some ''unit:217''"
proof -
  have h: "normalizeUnitKeyFromNumber (Some '' 217 '') = Some ''unit:217''"
    by (simp add: normalizeUnitKeyFromNumber_def normalizeUnitNumber_def startsWith_def
        trim_def isWhitespace_def)
  show ?thesis
    using h canonical_key_idempotent [OF h, where u = "\<lparr>unit_key = None, unit_id = None,
      unit_number = Some ''9'', available_on = None, page_url = None, price_text = None,
      raw_text = None\<rparr>" and rs = "[]"]
    by simp
qed

section \<open>Lemmas about skipped records\<close>

lemma Map_set_subset: "set (Map_set k v m) \<subseteq> insert (k, v) (set m)"
  unfolding Map_set_def by (induction m) auto

lemma buildMap_loop_raw:
  "(k, e) \<in> set (buildMap_loop m us) \<Longrightarrow>
   (k, e) \<in> set m \<or> normalizeUnitKey (raw e) = Some k"
proof (induction us arbitrary: m)
  case Nil
  then show ?case by simp
next
  case (Cons u us)
  show ?case
  proof (cases "normalizeUnitKey u")
    case None
    then show ?thesis using Cons by (simp add: truthy_def)
  next
    case (Some k')
    then have t: "truthy (normalizeUnitKey u)"
      using truthy_normalizeUnitKey [of u] by simp
    let ?v = "\<lparr>entry_unit_number =
                 orElse (orElse (case unit_number u of None \<Rightarrow> None | Some n \<Rightarrow> Some (trim n))
                                (unitNumberFromKey (normalizeUnitKey u))) None,
               raw = u\<rparr>"
    have "(k, e) \<in> set (buildMap_loop (Map_set k' ?v m) us)"
      using Cons.prems t Some by (simp add: Let_def)
    then have "(k, e) \<in> set (Map_set k' ?v m) \<or> normalizeUnitKey (raw e) = Some k"
      by (rule Cons.IH)
    then show ?thesis using Map_set_subset [of k' ?v m] Some by auto
  qed
qed

lemma unkeyable_None:
  assumes "unit_id u = None \<or> unit_id u = Some []"
    and "unit_number u = None \<or> (\<exists>n. unit_number u = Some n \<and> list_all isWhitespace n)"
  shows "normalizeUnitKey u = None" and "unitKeyForEvents u = None"
  using assms
  by (auto simp: normalizeUnitKey_def unitKeyForEvents_def startsWith_def trim_all_whitespace
      trim_Nil orElse_def truthy_def)

lemma buildMap_skip:
  assumes "normalizeUnitKey u = None"
  shows "buildMap (xs @ u # ys) = buildMap (xs @ ys)"
  using assms by (simp add: buildMap_def buildMap_loop_append truthy_def)

lemma pp_collect_append:
  "pp_collect st (rs @ rs') = pp_collect (pp_collect st rs) rs'"
proof (induction rs arbitrary: st)
  case Nil
  then show ?case by (cases st) simp
next
  case (Cons r rs)
  then show ?case by (cases st) (simp add: Let_def)
qed

lemma pp_collect_skip:
  assumes "ex_unit_number r = None \<or> (\<exists>n. ex_unit_number r = Some n \<and> list_all isWhitespace n)"
  shows "pp_collect st (rs @ r # rs') = pp_collect st (rs @ rs')"
proof -
  have "normalizeUnitNumber (ex_unit_number r) = None"
    using assms by (auto simp: normalizeUnitNumber_def trim_all_whitespace trim_Nil)
  then have "\<not> truthy (normalizeUnitKeyFromNumber (normalizeUnitNumber (ex_unit_number r)))"
    by (simp add: normalizeUnitKeyFromNumber_def normalizeUnitNumber_def trim_Nil truthy_def)
  then have "\<And>st'. pp_collect st' (r # rs') = pp_collect st' rs'"
    by (case_tac st') (simp add: Let_def)
  then show ?thesis
    by (simp add: pp_collect_append [of st rs "r # rs'"] pp_collect_append [of st rs rs'])
qed

section \<open>Claims about unkeyable records\<close>

text \<open>
  Claim C5. A raw record with no derivable key (its \<open>unit_id\<close> is missing or empty and
  its unit number is missing or blank) has no key, and \<open>buildMap\<close> drops it: the map built
  from a list that contains it is the map built from the list without it, the record is
  the \<open>raw\<close> of no entry, and every diff against or from such a list is the diff without
  it (for \<open>diffKeys\<close> and for \<open>diffUnitKeys\<close>). An extracted ProspectPortal record with a
  missing or blank unit number adds nothing to the units of the snapshot.
\<close>

theorem unkeyable_record_dropped:
  assumes "unit_id u = None \<or> unit_id u = Some []"
    and "unit_number u = None \<or> (\<exists>n. unit_number u = Some n \<and> list_all isWhitespace n)"
    and "ex_unit_number r = None \<or> (\<exists>n. ex_unit_number r = Some n \<and> list_all isWhitespace n)"
  shows "normalizeUnitKey u = None \<and>
         buildMap (xs @ u # ys) = buildMap (xs @ ys) \<and>
         u \<notin> (raw \<circ> snd) ` set (buildMap (xs @ u # ys)) \<and>
         diffKeys (buildMap (xs @ u # ys)) (buildMap cs) =
           diffKeys (buildMap (xs @ ys)) (buildMap cs) \<and>
         diffKeys (buildMap ps) (buildMap (xs @ u # ys)) =
           diffKeys (buildMap ps) (buildMap (xs @ ys)) \<and>
         diffUnitKeys (xs @ u # ys) cs = diffUnitKeys (xs @ ys) cs \<and>
         diffUnitKeys ps (xs @ u # ys) = diffUnitKeys ps (xs @ ys) \<and>
         pp_collect st (rs @ r # rs') = pp_collect st (rs @ rs')"
proof -
  have n: "normalizeUnitKey u = None" and e: "unitKeyForEvents u = None"
    using assms(1,2) by (rule unkeyable_None)+
  have b: "buildMap (xs @ u # ys) = buildMap (xs @ ys)"
    using n by (rule buildMap_skip)
  have r: "u \<notin> (raw \<circ> snd) ` set (buildMap (xs @ u # ys))"
  proof
    assume "u \<in> (raw \<circ> snd) ` set (buildMap (xs @ u # ys))"
    then obtain k en where "(k, en) \<in> set (buildMap_loop [] (xs @ u # ys))" "raw en = u"
      by (auto simp: buildMap_def)
    then show False using buildMap_loop_raw [of k en "[]" "xs @ u # ys"] n by simp
  qed
  have d: "diffUnitKeys (xs @ u # ys) cs = diffUnitKeys (xs @ ys) cs"
    "diffUnitKeys ps (xs @ u # ys) = diffUnitKeys ps (xs @ ys)"
    using e by (simp_all add: diffUnitKeys_def truthy_def)
  have p: "pp_collect st (rs @ r # rs') = pp_collect st (rs @ rs')"
    using assms(3) by (rule pp_collect_skip)
  show ?thesis using n r d p unfolding b by simp
qed

text \<open>The same at a record with a blank unit number and at one with none.\<close>

theorem unkeyable_record_dropped_witness:
  "buildMap
     [\<lparr>unit_key = None, unit_id = Some ''unit:101'', unit_number = Some ''101'',
        available_on = None, page_url = None, price_text = None, raw_text = None\<rparr>,
      \<lparr>unit_key = None, unit_id = None, unit_number = Some ''  '',
        available_on = Some ''Available'', page_url = None, price_text = None, raw_text = None\<rparr>] =
   buildMap
     [\<lparr>unit_key = None, unit_id = Some ''unit:101'', unit_number = Some ''101'',
        available_on = None, page_url = None, price_text = None, raw_text = None\<rparr>] \<and>
   pp_collect ([], [])
     [\<lparr>ex_unit_number = None, ex_price_text = Some ''$1,200'', ex_available_on = None,
       ex_raw = None, ex_page_url = None\<rparr>] = ([], [])"
proof -
  let ?u = "\<lparr>unit_key = None, unit_id = None, unit_number = Some ''  '',
        available_on = Some ''Available'', page_url = None, price_text = None, raw_text = None\<rparr>"
  let ?r = "\<lparr>ex_unit_number = None, ex_price_text = Some ''$1,200'', ex_available_on = None,
       ex_raw = None, ex_page_url = None\<rparr>"
  have h1: "unit_id ?u = None \<or> unit_id ?u = Some []" by simp
  have h2: "unit_number ?u = None \<or> (\<exists>n. unit_number ?u = Some n \<and> list_all isWhitespace n)"
    by (simp add: isWhitespace_def)
  have h3: "ex_unit_number ?r = None \<or> (\<exists>n. ex_unit_number ?r = Some n \<and> list_all isWhitespace n)"
    by simp
  show ?thesis
    using unkeyable_record_dropped [OF h1 h2 h3, where
        xs = "[\<lparr>unit_key = None, unit_id = Some ''unit:101'', unit_number = Some ''101'',
        available_on = None, page_url = None, price_text = None, raw_text = None\<rparr>]"
        and ys = "[]" and st = "([], [])" and rs = "[]" and rs' = "[]"]
    by simp
qed

section \<open>Lemmas about overwritten entries\<close>

lemma Map_get_Map_set: "Map_get (Map_set k v m) k = Some v"
  by (simp add: Map_get_def Map_set_def update_conv')

lemma buildMap_last_wins:
  assumes "normalizeUnitKey u = Some k"
  shows "Map_get (buildMap (us @ [u])) k =
           Some \<lparr>entry_unit_number =
                   orElse (orElse (case unit_number u of None \<Rightarrow> None | Some n \<Rightarrow> Some (trim n))
                                  (unitNumberFromKey (Some k))) None,
                 raw = u\<rparr>"
proof -
  have "truthy (normalizeUnitKey u)"
    using assms truthy_normalizeUnitKey [of u] by simp
  then show ?thesis
    using assms by (simp add: buildMap_def buildMap_loop_append Let_def Map_get_Map_set)
qed

section \<open>Claims about duplicate keys\<close>

text \<open>
  Claim C8 says that of several records with one key the first is kept. \<open>buildMap\<close> stores
  with \<open>m.set(key, ...)\<close>, which overwrites: for two records with the key \<open>unit:217\<close> the
  map holds the second record and its unit number \<open>217A\<close>, and for two records with the
  unit number \<open>101\<close> it holds the second. The de-duplication loops of the two scrapers
  keep the first record on inputs of the same shape.
\<close>

theorem buildMap_keeps_last_record:
  "buildMap
     [\<lparr>unit_key = None, unit_id = Some ''unit:217'', unit_number = Some ''217'',
        available_on = None, page_url = None, price_text = None, raw_text = None\<rparr>,
      \<lparr>unit_key = None, unit_id = Some ''unit:217'', unit_number = Some ''217A'',
        available_on = None, page_url = None, price_text = None, raw_text = None\<rparr>] =
   [(''unit:217'',
     \<lparr>entry_unit_number = Some ''217A'',
      raw = \<lparr>unit_key = None, unit_id = Some ''unit:217'', unit_number = Some ''217A'',
        available_on = None, page_url = None, price_text = None, raw_text = None\<rparr>\<rparr>)] \<and>
   buildMap
     [\<lparr>unit_key = None, unit_id = Some ''945458'', unit_number = Some ''101'',
        available_on = Some ''2025-01-01'', page_url = None, price_text = None, raw_text = None\<rparr>,
      \<lparr>unit_key = None, unit_id = Some ''945459'', unit_number = Some ''101'',
        available_on = Some ''2025-02-01'', page_url = None, price_text = None, raw_text = None\<rparr>] =
   [(''unit:101'',
     \<lparr>entry_unit_number = Some ''101'',
      raw = \<lparr>unit_key = None, unit_id = Some ''945459'', unit_number = Some ''101'',
        available_on = Some ''2025-02-01'', page_url = None, price_text = None, raw_text = None\<rparr>\<rparr>)] \<and>
   fst (rc_dedupe ([], [])
     [\<lparr>unit_key = None, unit_id = Some ''unit:217'', unit_number = Some ''217'',
        available_on = None, page_url = None, price_text = None, raw_text = None\<rparr>,
      \<lparr>unit_key = None, unit_id = Some ''unit:217'', unit_number = Some ''217A'',
        available_on = None, page_url = None, price_text = None, raw_text = None\<rparr>]) =
     [\<lparr>unit_key = None, unit_id = Some ''unit:217'', unit_number = Some ''217'',
        available_on = None, page_url = None, price_text = None, raw_text = None\<rparr>] \<and>
   map price_text (fst (pp_collect ([], [])
     [\<lparr>ex_unit_number = Some ''217'', ex_price_text = Some ''$1,200'', ex_available_on = None,
       ex_raw = None, ex_page_url = None\<rparr>,
      \<lparr>ex_unit_number = Some '' 217'', ex_price_text = Some ''$1,300'', ex_available_on = None,
       ex_raw = None, ex_page_url = None\<rparr>])) = [Some ''$1,200'']"
  by (simp add: buildMap_def normalizeUnitKey_def startsWith_def trim_def isWhitespace_def
      truthy_def orElse_def unitNumberFromKey_def slice5_def Map_set_def Let_def
      normalizeUnitNumber_def normalizeUnitKeyFromNumber_def)

section \<open>Lemmas about delete-then-insert\<close>

lemma replace_pattern:
  assumes "list_all (event_matches p d src) rows"
  shows "filter (event_matches p d src)
           (unit_events (insert_events rows (delete_events p d src s))) = rows"
    and "filter (\<lambda>e. \<not> event_matches p d src e)
           (unit_events (insert_events rows (delete_events p d src s))) =
         filter (\<lambda>e. \<not> event_matches p d src e) (unit_events s)"
    and "insert_events rows (delete_events p d src (insert_events rows (delete_events p d src s)))
           = insert_events rows (delete_events p d src s)"
    and "unit_snapshots (insert_events rows (delete_events p d src s)) = unit_snapshots s"
proof -
  have a: "filter (event_matches p d src) rows = rows"
    using assms by (simp add: list_all_iff)
  have b: "filter (\<lambda>e. \<not> event_matches p d src e) rows = []"
    using assms by (simp add: list_all_iff)
  show "filter (event_matches p d src)
           (unit_events (insert_events rows (delete_events p d src s))) = rows"
    by (simp add: insert_events_def delete_events_def a)
  show "filter (\<lambda>e. \<not> event_matches p d src e)
           (unit_events (insert_events rows (delete_events p d src s))) =
         filter (\<lambda>e. \<not> event_matches p d src e) (unit_events s)"
    by (simp add: insert_events_def delete_events_def b)
  show "insert_events rows (delete_events p d src (insert_events rows (delete_events p d src s)))
           = insert_events rows (delete_events p d src s)"
    by (simp add: insert_events_def delete_events_def b)
  show "unit_snapshots (insert_events rows (delete_events p d src s)) = unit_snapshots s"
    by (simp add: insert_events_def delete_events_def)
qed

lemma other_source_kept:
  assumes "filter (\<lambda>e. \<not> event_matches p d src e) xs = filter (\<lambda>e. \<not> event_matches p d src e) ys"
  shows "filter (\<lambda>e. source e \<noteq> src) xs = filter (\<lambda>e. source e \<noteq> src) ys"
proof -
  have "\<And>zs. filter (\<lambda>e. source e \<noteq> src) zs =
          filter (\<lambda>e. source e \<noteq> src) (filter (\<lambda>e. \<not> event_matches p d src e) zs)"
    by (auto simp: event_matches_def intro: filter_cong)
  then show ?thesis using assms by metis
qed

lemma writeEvents_rows_match:
  "list_all (event_matches p d src) (writeEvents_rows src p d ap dis cm)"
  by (auto simp: writeEvents_rows_def list_all_iff event_matches_def)

lemma pp_events_match:
  "list_all (event_matches p d src) (pp_events p d src units df)"
  by (auto simp: pp_events_def Let_def list_all_iff event_matches_def)

lemma writeEvents_ok:
  assumes "delete_error w p = None" and "insert_error w p = None"
  shows "writeEvents w src p d ap dis cm s =
           (insert_events (writeEvents_rows src p d ap dis cm) (delete_events p d src s),
            Inr (length (writeEvents_rows src p d ap dis cm)))"
  using assms by (simp add: writeEvents_def Let_def insert_events_def)

lemma replaceEventsForDay_ok:
  assumes "delete_error w p = None" and "insert_error w p = None"
  shows "replaceEventsForDay w p d src events s =
           (insert_events events (delete_events p d src s), Inr ())"
  using assms by (simp add: replaceEventsForDay_def Let_def insert_events_def)

lemma funpow_idem:
  assumes "\<And>s. f (f s) = f s"
  shows "(f ^^ Suc n) s = f s"
  by (induction n) (simp_all add: assms)

section \<open>Claims about the event writer\<close>

text \<open>
  Claim C2. When neither the delete nor the insert fails, running \<open>writeEvents\<close> any number
  of times (at least once) with the same diff leaves, for the tuple of property, date and
  source, exactly the rows of that diff (one per appeared key, then one per disappeared
  key); the rows that do not match the tuple, among them every row of another source, are
  those of the store before; and the store after several runs is the store after one. The
  same holds for \<open>replaceEventsForDay\<close> with the events that \<open>main\<close> builds.
\<close>

theorem writeEvents_replaces_exactly:
  fixes w :: world and src p d :: string and ap dis :: "string list" and cm :: unit_map
    and units :: "unit_rec list" and df :: diff
  assumes "delete_error w p = None" and "insert_error w p = None"
  defines "run \<equiv> \<lambda>s. fst (writeEvents w src p d ap dis cm s)"
    and "rows \<equiv> writeEvents_rows src p d ap dis cm"
    and "pp_run \<equiv> \<lambda>s. fst (replaceEventsForDay w p d src (pp_events p d src units df) s)"
  shows "filter (event_matches p d src) (unit_events ((run ^^ Suc n) s)) = rows \<and>
         map (\<lambda>e. (event_unit_key e, event_type e)) rows =
           map (\<lambda>k. (k, ''appeared'')) ap @ map (\<lambda>k. (k, ''disappeared'')) dis \<and>
         filter (\<lambda>e. \<not> event_matches p d src e) (unit_events ((run ^^ Suc n) s)) =
           filter (\<lambda>e. \<not> event_matches p d src e) (unit_events s) \<and>
         filter (\<lambda>e. source e \<noteq> src) (unit_events ((run ^^ Suc n) s)) =
           filter (\<lambda>e. source e \<noteq> src) (unit_events s) \<and>
         (run ^^ Suc n) s = run s \<and>
         filter (event_matches p d src) (unit_events ((pp_run ^^ Suc n) s)) =
           pp_events p d src units df \<and>
         filter (\<lambda>e. source e \<noteq> src) (unit_events ((pp_run ^^ Suc n) s)) =
           filter (\<lambda>e. source e \<noteq> src) (unit_events s) \<and>
         (pp_run ^^ Suc n) s = pp_run s"
proof -
  have run: "\<And>s. run s = insert_events rows (delete_events p d src s)"
    unfolding run_def rows_def using assms(1,2) by (simp add: writeEvents_ok)
  have m: "list_all (event_matches p d src) rows"
    unfolding rows_def by (rule writeEvents_rows_match)
  have idem: "\<And>s. run (run s) = run s"
    unfolding run by (rule replace_pattern(3) [OF m])
  have n: "(run ^^ Suc n) s = run s"
    using idem by (rule funpow_idem)
  have a: "filter (event_matches p d src) (unit_events (run s)) = rows"
    unfolding run by (rule replace_pattern(1) [OF m])
  have b: "filter (\<lambda>e. \<not> event_matches p d src e) (unit_events (run s)) =
           filter (\<lambda>e. \<not> event_matches p d src e) (unit_events s)"
    unfolding run by (rule replace_pattern(2) [OF m])
  have c: "filter (\<lambda>e. source e \<noteq> src) (unit_events (run s)) =
           filter (\<lambda>e. source e \<noteq> src) (unit_events s)"
    using b by (rule other_source_kept)
  have k: "map (\<lambda>e. (event_unit_key e, event_type e)) rows =
           map (\<lambda>k. (k, ''appeared'')) ap @ map (\<lambda>k. (k, ''disappeared'')) dis"
    unfolding rows_def by (simp add: writeEvents_rows_def comp_def)
  have pp: "\<And>s. pp_run s = insert_events (pp_events p d src units df) (delete_events p d src s)"
    unfolding pp_run_def using assms(1,2) by (simp add: replaceEventsForDay_ok)
  have pm: "list_all (event_matches p d src) (pp_events p d src units df)"
    by (rule pp_events_match)
  have pidem: "\<And>s. pp_run (pp_run s) = pp_run s"
    unfolding pp by (rule replace_pattern(3) [OF pm])
  have pn: "(pp_run ^^ Suc n) s = pp_run s"
    using pidem by (rule funpow_idem)
  have pa: "filter (event_matches p d src) (unit_events (pp_run s)) = pp_events p d src units df"
    unfolding pp by (rule replace_pattern(1) [OF pm])
  have pb: "filter (\<lambda>e. \<not> event_matches p d src e) (unit_events (pp_run s)) =
           filter (\<lambda>e. \<not> event_matches p d src e) (unit_events s)"
    unfolding pp by (rule replace_pattern(2) [OF pm])
  have pc: "filter (\<lambda>e. source e \<noteq> src) (unit_events (pp_run s)) =
           filter (\<lambda>e. source e \<noteq> src) (unit_events s)"
    using pb by (rule other_source_kept)
  show ?thesis unfolding n pn using a b c k pa pc by simp
qed

text \<open>
  Three runs on a store that holds a row of another source and an older row of the same
  tuple: the rows of the tuple are the two rows of the diff.
\<close>

theorem writeEvents_replaces_exactly_witness:
  "delete_error quietWorld ''p1'' = None \<and> insert_error quietWorld ''p1'' = None \<and>
   filter (event_matches ''p1'' ''2025-01-02'' ''snapshot'')
     (unit_events
        (((\<lambda>s. fst (writeEvents quietWorld ''snapshot'' ''p1'' ''2025-01-02''
                      [''unit:103''] [''unit:101''] [] s)) ^^ Suc (Suc (Suc 0)))
           \<lparr>unit_snapshots = [],
            unit_events =
              [\<lparr>property_id = ''p1'', event_date = ''2025-01-02'', event_unit_key = ''unit:7'',
                event_unit_number = None, event_type = ''appeared'', source = ''scan''\<rparr>,
               \<lparr>property_id = ''p1'', event_date = ''2025-01-02'', event_unit_key = ''unit:8'',
                event_unit_number = None, event_type = ''appeared'', source = ''snapshot''\<rparr>]\<rparr>)) =
   [\<lparr>property_id = ''p1'', event_date = ''2025-01-02'', event_unit_key = ''unit:103'',
     event_unit_number = Some ''103'', event_type = ''appeared'', source = ''snapshot''\<rparr>,
    \<lparr>property_id = ''p1'', event_date = ''2025-01-02'', event_unit_key = ''unit:101'',
     event_unit_number = Some ''101'', event_type = ''disappeared'', source = ''snapshot''\<rparr>]"
proof -
  have h1: "delete_error quietWorld ''p1'' = None" and h2: "insert_error quietWorld ''p1'' = None"
    by (simp_all add: quietWorld_def)
  have rows: "writeEvents_rows ''snapshot'' ''p1'' ''2025-01-02'' [''unit:103''] [''unit:101''] [] =
    [\<lparr>property_id = ''p1'', event_date = ''2025-01-02'', event_unit_key = ''unit:103'',
     event_unit_number = Some ''103'', event_type = ''appeared'', source = ''snapshot''\<rparr>,
    \<lparr>property_id = ''p1'', event_date = ''2025-01-02'', event_unit_key = ''unit:101'',
     event_unit_number = Some ''101'', event_type = ''disappeared'', source = ''snapshot''\<rparr>]"
    by (simp add: writeEvents_rows_def Map_get_def unitNumberFromKey_def orElse_def truthy_def
        startsWith_def slice5_def)
  show ?thesis
    using h1 h2 writeEvents_replaces_exactly [OF h1 h2, where src = "''snapshot''"
        and d = "''2025-01-02''" and ap = "[''unit:103'']" and dis = "[''unit:101'']"
        and cm = "[]" and n = "Suc (Suc 0)"]
    unfolding rows by blast
qed

section \<open>Claims about the unit number of an event row\<close>

text \<open>
  Claim C6 says that a row for a disappeared key takes its unit number from the unit of
  the previous snapshot, and from the key only as a fallback. The \<open>writeEvents\<close> of
  diff\_snapshots\_to\_unit\_events.js reads only the key for a disappeared row: for the
  previous unit with id \<open>unit:0217\<close> and number \<open>217\<close> the row carries \<open>0217\<close>, where the
  \<open>writeEvents\<close> of the v2 script, which looks the key up in \<open>prevMap\<close>, writes \<open>217\<close>. The
  \<open>writeEvents\<close> of the RentCafe runner reads only the key for every row: for a previous
  floor-plan unit with number \<open>A1\<close> the disappeared row carries no unit number at all.
\<close>

theorem disappeared_rows_ignore_previous_snapshot:
  "map event_unit_number
     (writeEvents_rows ''snapshot'' ''p1'' ''2025-01-02''
        (appeared (diffKeys (buildMap [rawUnit (Some ''unit:0217'') (Some ''217'')]) (buildMap [])))
        (disappeared (diffKeys (buildMap [rawUnit (Some ''unit:0217'') (Some ''217'')]) (buildMap [])))
        (buildMap [])) = [Some ''0217''] \<and>
   map event_unit_number
     (writeEvents_v2_rows ''snapshot'' ''p1'' ''2025-01-02''
        (appeared (diffKeys (buildMap [rawUnit (Some ''unit:0217'') (Some ''217'')]) (buildMap [])))
        (disappeared (diffKeys (buildMap [rawUnit (Some ''unit:0217'') (Some ''217'')]) (buildMap [])))
        (buildMap []) (buildMap [rawUnit (Some ''unit:0217'') (Some ''217'')])) = [Some ''217''] \<and>
   map (\<lambda>e. (event_unit_key e, event_type e, event_unit_number e))
     (rc_writeEvents_rows ''snapshot'' ''p1'' ''2025-01-02''
        (appeared (diffUnitKeys [rawUnit (Some ''floorplan:A1:1:1:700'') (Some ''A1'')]
                                [rawUnit (Some ''unit:101'') (Some ''101'')]))
        (disappeared (diffUnitKeys [rawUnit (Some ''floorplan:A1:1:1:700'') (Some ''A1'')]
                                   [rawUnit (Some ''unit:101'') (Some ''101'')]))) =
     [(''unit:101'', ''appeared'', Some ''101''),
      (''floorplan:A1:1:1:700'', ''disappeared'', None)]"
proof -
  have p: "buildMap [rawUnit (Some ''unit:0217'') (Some ''217'')] =
      [(''unit:0217'', \<lparr>entry_unit_number = Some ''217'',
                        raw = rawUnit (Some ''unit:0217'') (Some ''217'')\<rparr>)]"
    by (simp add: buildMap_def normalizeUnitKey_def startsWith_def trim_def isWhitespace_def
        truthy_def orElse_def Map_set_def Let_def rawUnit_def)
  have c: "buildMap [] = []" by (simp add: buildMap_def)
  have d: "diffKeys [(''unit:0217'', \<lparr>entry_unit_number = Some ''217'',
                        raw = rawUnit (Some ''unit:0217'') (Some ''217'')\<rparr>)] [] =
           \<lparr>appeared = [], disappeared = [''unit:0217'']\<rparr>"
    by (simp add: diffKeys_def newSet_def Map_keys_def Let_def)
  have v1: "map event_unit_number
     (writeEvents_rows ''snapshot'' ''p1'' ''2025-01-02'' [] [''unit:0217''] []) = [Some ''0217'']"
    by (simp add: writeEvents_rows_def unitNumberFromKey_def orElse_def truthy_def startsWith_def
        slice5_def)
  have v2: "map event_unit_number
     (writeEvents_v2_rows ''snapshot'' ''p1'' ''2025-01-02'' [] [''unit:0217''] []
        [(''unit:0217'', \<lparr>entry_unit_number = Some ''217'',
                        raw = rawUnit (Some ''unit:0217'') (Some ''217'')\<rparr>)]) = [Some ''217'']"
    by (simp add: writeEvents_v2_rows_def Map_get_def orElse_def truthy_def)
  have k1: "unitKeyForEvents (rawUnit (Some ''floorplan:A1:1:1:700'') (Some ''A1'')) =
              Some ''floorplan:A1:1:1:700''"
    by (simp add: unitKeyForEvents_def orElse_def truthy_def trim_def isWhitespace_def rawUnit_def)
  have k2: "unitKeyForEvents (rawUnit (Some ''unit:101'') (Some ''101'')) = Some ''unit:101''"
    by (simp add: unitKeyForEvents_def orElse_def truthy_def trim_def isWhitespace_def rawUnit_def)
  have rd: "diffUnitKeys [rawUnit (Some ''floorplan:A1:1:1:700'') (Some ''A1'')]
                         [rawUnit (Some ''unit:101'') (Some ''101'')] =
            \<lparr>appeared = [''unit:101''], disappeared = [''floorplan:A1:1:1:700'']\<rparr>"
    by (simp add: diffUnitKeys_def k1 k2 truthy_def newSet_def Let_def)
  have rc: "map (\<lambda>e. (event_unit_key e, event_type e, event_unit_number e))
     (rc_writeEvents_rows ''snapshot'' ''p1'' ''2025-01-02'' [''unit:101'']
        [''floorplan:A1:1:1:700'']) =
     [(''unit:101'', ''appeared'', Some ''101''),
      (''floorplan:A1:1:1:700'', ''disappeared'', None)]"
    by (simp add: rc_writeEvents_rows_def startsWith_def slice5_def)
  show ?thesis unfolding p c d rd using v1 v2 rc by simp
qed

section \<open>Lemmas about the differ's loop\<close>

lemma main_loop_visits_all:
  "map outcome_property (snd (snd (main_loop w es sd props (s, t, out)))) =
     map outcome_property out @ props"
proof (induction props arbitrary: s t out)
  case Nil
  then show ?case by simp
next
  case (Cons p ps)
  obtain s' r where pr: "processProperty w es sd p s = (s', r)"
    by (cases "processProperty w es sd p s")
  have op: "\<And>oc. r = Inr oc \<Longrightarrow> outcome_property oc = p"
    using pr by (auto simp: processProperty_def Let_def
        split: sum.splits list.splits prod.splits)
  show ?case
  proof (cases r)
    case (Inl e)
    then show ?thesis using pr Cons.IH by simp
  next
    case (Inr oc)
    then show ?thesis using pr Cons.IH op [OF Inr] by (cases oc) simp_all
  qed
qed

section \<open>Claims about the batch loops\<close>

text \<open>
  Claim C9 says that a failure while one property is processed never ends the batch. The
  loop of Mode B in run\_rentcafe\_all\_with\_events.js calls \<open>runOneProperty\<close> with no
  \<open>try\<close>: when the scrape of the first of two properties throws, the loop ends with that
  exception, and the second property, which alone is processed without error, gets
  neither a snapshot nor an event. The loop of diff\_snapshots\_to\_unit\_events.js catches the
  failure of its first property and goes on to the second.
\<close>

theorem rentcafe_batch_stops_at_first_failure:
  "rc_main_loop
     (quietWorld\<lparr>extractAvailableUnitsFromDom :=
        (\<lambda>url. if url = ''https://a'' then Inl (ScrapeError ''timeout'')
               else Inr [rawUnit (Some ''unit:101'') (Some ''101'')])\<rparr>)
     ''snapshot'' ''2025-01-02''
     [\<lparr>p_id = ''p1'', p_urls = [''https://a'']\<rparr>, \<lparr>p_id = ''p2'', p_urls = [''https://b'']\<rparr>]
     (\<lparr>unit_snapshots = [], unit_events = []\<rparr>, []) =
     (\<lparr>unit_snapshots = [], unit_events = []\<rparr>, [], Some (ScrapeError ''timeout'')) \<and>
   fst (snd (rc_main_loop
     (quietWorld\<lparr>extractAvailableUnitsFromDom :=
        (\<lambda>url. if url = ''https://a'' then Inl (ScrapeError ''timeout'')
               else Inr [rawUnit (Some ''unit:101'') (Some ''101'')])\<rparr>)
     ''snapshot'' ''2025-01-02''
     [\<lparr>p_id = ''p2'', p_urls = [''https://b'']\<rparr>]
     (\<lparr>unit_snapshots = [], unit_events = []\<rparr>, []))) =
     [Written ''p2'' ''2025-01-02'' 1 0 1] \<and>
   snd (snd (main_loop
     (quietWorld\<lparr>select_error := (\<lambda>p. if p = ''p1'' then Some (DbError ''down'') else None)\<rparr>)
     ''snapshot'' [] [''p1'', ''p2'']
     (\<lparr>unit_snapshots =
         [\<lparr>snapshot_property_id = ''p2'', snapshot_date = ''2025-01-01'', units_json = []\<rparr>,
          \<lparr>snapshot_property_id = ''p2'', snapshot_date = ''2025-01-02'',
            units_json = [rawUnit (Some ''unit:101'') (Some ''101'')]\<rparr>],
       unit_events = []\<rparr>, 0, []))) =
     [Failed ''p1'' (DbError ''down''), Written ''p2'' ''2025-01-02'' 1 0 1]"
proof -
  have stop:
    "rc_main_loop
     (quietWorld\<lparr>extractAvailableUnitsFromDom :=
        (\<lambda>url. if url = ''https://a'' then Inl (ScrapeError ''timeout'')
               else Inr [rawUnit (Some ''unit:101'') (Some ''101'')])\<rparr>)
     ''snapshot'' ''2025-01-02''
     [\<lparr>p_id = ''p1'', p_urls = [''https://a'']\<rparr>, \<lparr>p_id = ''p2'', p_urls = [''https://b'']\<rparr>]
     (\<lparr>unit_snapshots = [], unit_events = []\<rparr>, []) =
     (\<lparr>unit_snapshots = [], unit_events = []\<rparr>, [], Some (ScrapeError ''timeout''))"
    by code_simp
  have alone:
    "fst (snd (rc_main_loop
     (quietWorld\<lparr>extractAvailableUnitsFromDom :=
        (\<lambda>url. if url = ''https://a'' then Inl (ScrapeError ''timeout'')
               else Inr [rawUnit (Some ''unit:101'') (Some ''101'')])\<rparr>)
     ''snapshot'' ''2025-01-02''
     [\<lparr>p_id = ''p2'', p_urls = [''https://b'']\<rparr>]
     (\<lparr>unit_snapshots = [], unit_events = []\<rparr>, []))) =
     [Written ''p2'' ''2025-01-02'' 1 0 1]"
    by code_simp
  have differ:
    "snd (snd (main_loop
     (quietWorld\<lparr>select_error := (\<lambda>p. if p = ''p1'' then Some (DbError ''down'') else None)\<rparr>)
     ''snapshot'' [] [''p1'', ''p2'']
     (\<lparr>unit_snapshots =
         [\<lparr>snapshot_property_id = ''p2'', snapshot_date = ''2025-01-01'', units_json = []\<rparr>,
          \<lparr>snapshot_property_id = ''p2'', snapshot_date = ''2025-01-02'',
            units_json = [rawUnit (Some ''unit:101'') (Some ''101'')]\<rparr>],
       unit_events = []\<rparr>, 0, []))) =
     [Failed ''p1'' (DbError ''down''), Written ''p2'' ''2025-01-02'' 1 0 1]"
    by code_simp
  show ?thesis using stop alone differ by (intro conjI)
qed

section \<open>Lemmas about the previous snapshot\<close>

lemma upsert_snapshot_subset:
  "set (unit_snapshots (upsert_snapshot row s)) \<subseteq> insert row (set (unit_snapshots s))"
  by (auto simp: upsert_snapshot_def)

lemma getPreviousSnapshot_none:
  assumes "select_error w p = None"
    and "\<not> (\<exists>r \<in> set (unit_snapshots s). snapshot_property_id r = p \<and> snapshot_date r < today)"
  shows "getPreviousSnapshot w s p today = Inr None"
proof -
  have "filter (\<lambda>r. snapshot_property_id r = p \<and> snapshot_date r < today) (unit_snapshots s) = []"
    using assms(2) by (auto simp: filter_empty_conv)
  then show ?thesis using assms(1) by (simp add: getPreviousSnapshot_def order_desc_def)
qed

lemma diffUnitKeys_empty_baseline:
  "diffUnitKeys [] units =
     \<lparr>appeared = newSet (map the (filter truthy (map unitKeyForEvents units))),
      disappeared = []\<rparr>"
  by (simp add: diffUnitKeys_def newSet_def)

lemma rc_writeEvents_rows_match:
  "list_all (event_matches p d src) (rc_writeEvents_rows src p d ap dis)"
  by (auto simp: rc_writeEvents_rows_def list_all_iff event_matches_def)

lemma rc_writeEvents_ok:
  assumes "delete_error w p = None" and "insert_error w p = None"
  shows "rc_writeEvents w src p d ap dis s =
           (insert_events (rc_writeEvents_rows src p d ap dis) (delete_events p d src s),
            Inr (length (rc_writeEvents_rows src p d ap dis)))"
  using assms by (simp add: rc_writeEvents_def Let_def insert_events_def)

lemma processProperty_skip:
  assumes "select_error w q = None"
    and "length (filter (\<lambda>r. snapshot_property_id r = q) (unit_snapshots s)) < 2"
  shows "processProperty w src sd q s = (s, Inr (Skipped q))"
proof -
  let ?rows = "filter (\<lambda>r. snapshot_property_id r = q \<and>
                 (if sd \<noteq> [] then snapshot_date r \<le> sd else True)) (unit_snapshots s)"
  have "?rows = filter (\<lambda>r. if sd \<noteq> [] then snapshot_date r \<le> sd else True)
                  (filter (\<lambda>r. snapshot_property_id r = q) (unit_snapshots s))"
    by (auto intro: filter_cong)
  then have "length ?rows \<le> length (filter (\<lambda>r. snapshot_property_id r = q) (unit_snapshots s))"
    by (metis length_filter_le)
  then have l: "length (take 2 (order_desc ?rows)) < 2"
    using assms(2) by (simp add: order_desc_def)
  define snaps where "snaps = take 2 (order_desc ?rows)"
  have g: "getLastTwoSnapshots w sd s q = Inr snaps"
    unfolding snaps_def getLastTwoSnapshots_def using assms(1) by simp
  have "length snaps < 2" using l by (simp only: snaps_def)
  then have "snaps = [] \<or> (\<exists>a. snaps = [a])"
    by (cases snaps; cases "tl snaps") auto
  then show ?thesis
    unfolding processProperty_def g by auto
qed

section \<open>Claims about the first run of a property\<close>

text \<open>
  Claim C7, as amended. For a property with no snapshot before today, the RentCafe
  runner finds no previous snapshot and diffs the current units against the empty list:
  every key of the current units is reported as appeared, nothing as disappeared, and
  (when no call fails) the rows written for today are one appeared row per key. The batch
  differ of diff\_snapshots\_to\_unit\_events.js does not diff such a property: with fewer
  than two snapshots it prints \<open>skip\<close> and leaves the store as it is.
\<close>

theorem first_run_baseline:
  fixes w :: world and p :: property and s :: store and units :: "unit_rec list"
  assumes "select_error w (p_id p) = None" and "upsert_error w (p_id p) = None"
    and "delete_error w (p_id p) = None" and "insert_error w (p_id p) = None"
    and "p_urls p \<noteq> []" and "scrapeRentCafeUrls w (p_urls p) = Inr units"
    and "\<not> (\<exists>r \<in> set (unit_snapshots s). snapshot_property_id r = p_id p \<and> snapshot_date r < today)"
    and "select_error w q = None"
    and "length (filter (\<lambda>r. snapshot_property_id r = q) (unit_snapshots s)) < 2"
  shows "getPreviousSnapshot w s (p_id p) today = Inr None \<and>
         set (appeared (diffUnitKeys [] units)) = {k. \<exists>u \<in> set units. unitKeyForEvents u = Some k} \<and>
         disappeared (diffUnitKeys [] units) = [] \<and>
         snd (runOneProperty w src today p s) =
           Inr (Written (p_id p) today (length (appeared (diffUnitKeys [] units))) 0
                  (length (appeared (diffUnitKeys [] units)))) \<and>
         filter (event_matches (p_id p) today src)
           (unit_events (fst (runOneProperty w src today p s))) =
           rc_writeEvents_rows src (p_id p) today (appeared (diffUnitKeys [] units)) [] \<and>
         processProperty w src sd q s = (s, Inr (Skipped q))"
proof -
  let ?row = "\<lparr>snapshot_property_id = p_id p, snapshot_date = today, units_json = units\<rparr>"
  let ?s1 = "upsert_snapshot ?row s"
  let ?ap = "appeared (diffUnitKeys [] units)"
  let ?rows = "rc_writeEvents_rows src (p_id p) today ?ap []"
  have a: "getPreviousSnapshot w s (p_id p) today = Inr None"
    using assms(1,7) by (rule getPreviousSnapshot_none)
  have "\<not> (\<exists>r \<in> set (unit_snapshots ?s1). snapshot_property_id r = p_id p \<and> snapshot_date r < today)"
    using assms(7) upsert_snapshot_subset [of ?row s] by auto
  with assms(1) have prev: "getPreviousSnapshot w ?s1 (p_id p) today = Inr None"
    by (rule getPreviousSnapshot_none)
  have ups: "upsertSnapshot w (p_id p) today units s = Inr ?s1"
    using assms(2) by (simp add: upsertSnapshot_def)
  have dis: "disappeared (diffUnitKeys [] units) = []"
    by (simp add: diffUnitKeys_empty_baseline)
  have wr: "rc_writeEvents w src (p_id p) today ?ap [] ?s1 =
      (insert_events ?rows (delete_events (p_id p) today src ?s1), Inr (length ?rows))"
    using assms(3,4) by (rule rc_writeEvents_ok)
  have len: "length ?rows = length ?ap"
    by (simp add: rc_writeEvents_rows_def)
  have run: "runOneProperty w src today p s =
      (insert_events ?rows (delete_events (p_id p) today src ?s1),
       Inr (Written (p_id p) today (length ?ap) 0 (length ?ap)))"
    using assms(5,6) ups prev dis wr len by (simp add: runOneProperty_def Let_def)
  have b: "set ?ap = {k. \<exists>u \<in> set units. unitKeyForEvents u = Some k}"
    unfolding diffUnitKeys_empty_baseline diff.simps newSet_set truthy_keys_set
    using unitKeyForEvents_nonempty by (auto; metis)
  have c: "filter (event_matches (p_id p) today src)
           (unit_events (fst (runOneProperty w src today p s))) = ?rows"
    unfolding run fst_conv by (rule replace_pattern(1) [OF rc_writeEvents_rows_match])
  have d: "processProperty w src sd q s = (s, Inr (Skipped q))"
    using assms(8,9) by (rule processProperty_skip)
  show ?thesis using a b dis c d unfolding run by simp
qed

text \<open>
  The same for a property whose only snapshot is an earlier one of today, scraped again
  with one unit.
\<close>

theorem first_run_baseline_witness:
  "select_error (quietWorld\<lparr>extractAvailableUnitsFromDom :=
        (\<lambda>url. Inr [rawUnit (Some ''unit:101'') (Some ''101'')])\<rparr>) ''p1'' = None \<and> upsert_error (quietWorld\<lparr>extractAvailableUnitsFromDom :=
        (\<lambda>url. Inr [rawUnit (Some ''unit:101'') (Some ''101'')])\<rparr>) ''p1'' = None \<and>
   delete_error (quietWorld\<lparr>extractAvailableUnitsFromDom :=
        (\<lambda>url. Inr [rawUnit (Some ''unit:101'') (Some ''101'')])\<rparr>) ''p1'' = None \<and> insert_error (quietWorld\<lparr>extractAvailableUnitsFromDom :=
        (\<lambda>url. Inr [rawUnit (Some ''unit:101'') (Some ''101'')])\<rparr>) ''p1'' = None \<and>
   p_urls \<lparr>p_id = ''p1'', p_urls = [''https://b'']\<rparr> \<noteq> [] \<and> scrapeRentCafeUrls (quietWorld\<lparr>extractAvailableUnitsFromDom :=
        (\<lambda>url. Inr [rawUnit (Some ''unit:101'') (Some ''101'')])\<rparr>) (p_urls \<lparr>p_id = ''p1'', p_urls = [''https://b'']\<rparr>) = Inr [rawUnit (Some ''unit:101'') (Some ''101'')] \<and>
   \<not> (\<exists>r \<in> set (unit_snapshots \<lparr>unit_snapshots =
        [\<lparr>snapshot_property_id = ''p1'', snapshot_date = ''2025-01-02'', units_json = []\<rparr>],
      unit_events = []\<rparr>).
         snapshot_property_id r = ''p1'' \<and> snapshot_date r < ''2025-01-02'') \<and>
   length (filter (\<lambda>r. snapshot_property_id r = ''p1'') (unit_snapshots \<lparr>unit_snapshots =
        [\<lparr>snapshot_property_id = ''p1'', snapshot_date = ''2025-01-02'', units_json = []\<rparr>],
      unit_events = []\<rparr>)) < 2 \<and>
   snd (runOneProperty (quietWorld\<lparr>extractAvailableUnitsFromDom :=
        (\<lambda>url. Inr [rawUnit (Some ''unit:101'') (Some ''101'')])\<rparr>) ''snapshot'' ''2025-01-02'' \<lparr>p_id = ''p1'', p_urls = [''https://b'']\<rparr> \<lparr>unit_snapshots =
        [\<lparr>snapshot_property_id = ''p1'', snapshot_date = ''2025-01-02'', units_json = []\<rparr>],
      unit_events = []\<rparr>) =
     Inr (Written ''p1'' ''2025-01-02'' (length (appeared (diffUnitKeys [] [rawUnit (Some ''unit:101'') (Some ''101'')]))) 0
            (length (appeared (diffUnitKeys [] [rawUnit (Some ''unit:101'') (Some ''101'')])))) \<and>
   appeared (diffUnitKeys [] [rawUnit (Some ''unit:101'') (Some ''101'')]) = [''unit:101''] \<and>
   processProperty (quietWorld\<lparr>extractAvailableUnitsFromDom :=
        (\<lambda>url. Inr [rawUnit (Some ''unit:101'') (Some ''101'')])\<rparr>) ''snapshot'' [] ''p1'' \<lparr>unit_snapshots =
        [\<lparr>snapshot_property_id = ''p1'', snapshot_date = ''2025-01-02'', units_json = []\<rparr>],
      unit_events = []\<rparr> = (\<lparr>unit_snapshots =
        [\<lparr>snapshot_property_id = ''p1'', snapshot_date = ''2025-01-02'', units_json = []\<rparr>],
      unit_events = []\<rparr>, Inr (Skipped ''p1''))"
proof -
  have h1: "select_error (quietWorld\<lparr>extractAvailableUnitsFromDom :=
        (\<lambda>url. Inr [rawUnit (Some ''unit:101'') (Some ''101'')])\<rparr>) (p_id \<lparr>p_id = ''p1'', p_urls = [''https://b'']\<rparr>) = None" and h2: "upsert_error (quietWorld\<lparr>extractAvailableUnitsFromDom :=
        (\<lambda>url. Inr [rawUnit (Some ''unit:101'') (Some ''101'')])\<rparr>) (p_id \<lparr>p_id = ''p1'', p_urls = [''https://b'']\<rparr>) = None"
    and h3: "delete_error (quietWorld\<lparr>extractAvailableUnitsFromDom :=
        (\<lambda>url. Inr [rawUnit (Some ''unit:101'') (Some ''101'')])\<rparr>) (p_id \<lparr>p_id = ''p1'', p_urls = [''https://b'']\<rparr>) = None" and h4: "insert_error (quietWorld\<lparr>extractAvailableUnitsFromDom :=
        (\<lambda>url. Inr [rawUnit (Some ''unit:101'') (Some ''101'')])\<rparr>) (p_id \<lparr>p_id = ''p1'', p_urls = [''https://b'']\<rparr>) = None"
    by (simp_all add: quietWorld_def)
  have h5: "p_urls \<lparr>p_id = ''p1'', p_urls = [''https://b'']\<rparr> \<noteq> []" by simp
  have h6: "scrapeRentCafeUrls (quietWorld\<lparr>extractAvailableUnitsFromDom :=
        (\<lambda>url. Inr [rawUnit (Some ''unit:101'') (Some ''101'')])\<rparr>) (p_urls \<lparr>p_id = ''p1'', p_urls = [''https://b'']\<rparr>) = Inr [rawUnit (Some ''unit:101'') (Some ''101'')]"
    by code_simp
  have h7: "\<not> (\<exists>r \<in> set (unit_snapshots \<lparr>unit_snapshots =
        [\<lparr>snapshot_property_id = ''p1'', snapshot_date = ''2025-01-02'', units_json = []\<rparr>],
      unit_events = []\<rparr>).
         snapshot_property_id r = p_id \<lparr>p_id = ''p1'', p_urls = [''https://b'']\<rparr> \<and> snapshot_date r < ''2025-01-02'')"
    by simp
  have h8: "select_error (quietWorld\<lparr>extractAvailableUnitsFromDom :=
        (\<lambda>url. Inr [rawUnit (Some ''unit:101'') (Some ''101'')])\<rparr>) ''p1'' = None" by (simp add: quietWorld_def)
  have h9: "length (filter (\<lambda>r. snapshot_property_id r = ''p1'') (unit_snapshots \<lparr>unit_snapshots =
        [\<lparr>snapshot_property_id = ''p1'', snapshot_date = ''2025-01-02'', units_json = []\<rparr>],
      unit_events = []\<rparr>)) < 2"
    by simp
  have k: "appeared (diffUnitKeys [] [rawUnit (Some ''unit:101'') (Some ''101'')]) = [''unit:101'']"
    by code_simp
  show ?thesis
    using h1 h2 h3 h4 h5 h6 h7 h9 k
      first_run_baseline [OF h1 h2 h3 h4 h5 h6 h7 h8 h9, where src = "''snapshot''" and sd = "[]"]
    by simp
qed

text \<open>
  Claim C7 as the specification states it fails for the batch differ: a property whose
  only snapshot holds the unit \<open>unit:101\<close> gets no event, only the line \<open>skip\<close>.
\<close>

theorem first_run_is_skipped_by_differ:
  "main_loop quietWorld ''snapshot'' [] [''p1'']
     (\<lparr>unit_snapshots =
         [\<lparr>snapshot_property_id = ''p1'', snapshot_date = ''2025-01-02'',
           units_json = [rawUnit (Some ''unit:101'') (Some ''101'')]\<rparr>],
       unit_events = []\<rparr>, 0, []) =
     (\<lparr>unit_snapshots =
         [\<lparr>snapshot_property_id = ''p1'', snapshot_date = ''2025-01-02'',
           units_json = [rawUnit (Some ''unit:101'') (Some ''101'')]\<rparr>],
       unit_events = []\<rparr>, 0, [Skipped ''p1''])"
  by code_simp

end
